theory Spec2Isabelle
  imports Complex_Main "HOL-Library.Char_ord" "HOL-Library.List_Lexorder"
begin

section \<open>The driver of slam.cpp: data\<close>

subsection \<open>Values of the C++ type double\<close>

text \<open>
  A \<open>double\<close> is a finite number, an infinity or NaN. The special values and the
  rules of IEEE 754 for them are written out, since the driver divides by counters that
  can be zero. Finite arithmetic is exact here: rounding, overflow to an infinity and the
  sign of zero are not modelled (every divisor of the driver is converted from a count,
  so a zero divisor is \<open>+0.0\<close>).
\<close>

datatype double = Fin real | PInf | NInf | NaN

fun dadd :: "double \<Rightarrow> double \<Rightarrow> double" where
  "dadd NaN _ = NaN"
| "dadd _ NaN = NaN"
| "dadd (Fin a) (Fin b) = Fin (a + b)"
| "dadd (Fin _) PInf = PInf"
| "dadd (Fin _) NInf = NInf"
| "dadd PInf NInf = NaN"
| "dadd PInf _ = PInf"
| "dadd NInf PInf = NaN"
| "dadd NInf _ = NInf"

fun dmul :: "double \<Rightarrow> double \<Rightarrow> double" where
  "dmul NaN _ = NaN"
| "dmul _ NaN = NaN"
| "dmul (Fin a) (Fin b) = Fin (a * b)"
| "dmul (Fin a) PInf = (if a = 0 then NaN else if 0 < a then PInf else NInf)"
| "dmul (Fin a) NInf = (if a = 0 then NaN else if 0 < a then NInf else PInf)"
| "dmul PInf (Fin b) = (if b = 0 then NaN else if 0 < b then PInf else NInf)"
| "dmul NInf (Fin b) = (if b = 0 then NaN else if 0 < b then NInf else PInf)"
| "dmul PInf PInf = PInf"
| "dmul PInf NInf = NInf"
| "dmul NInf PInf = NInf"
| "dmul NInf NInf = PInf"

fun ddiv :: "double \<Rightarrow> double \<Rightarrow> double" where
  "ddiv NaN _ = NaN"
| "ddiv _ NaN = NaN"
| "ddiv (Fin a) (Fin b) =
     (if b = 0 then (if a = 0 then NaN else if 0 < a then PInf else NInf)
      else Fin (a / b))"
| "ddiv (Fin _) PInf = Fin 0"
| "ddiv (Fin _) NInf = Fin 0"
| "ddiv PInf (Fin b) = (if 0 \<le> b then PInf else NInf)"
| "ddiv NInf (Fin b) = (if 0 \<le> b then NInf else PInf)"
| "ddiv PInf PInf = NaN"
| "ddiv PInf NInf = NaN"
| "ddiv NInf PInf = NaN"
| "ddiv NInf NInf = NaN"

definition double_of_int :: "int \<Rightarrow> double" where
  "double_of_int n = Fin (real_of_int n)"

definition double_of_nat :: "nat \<Rightarrow> double" where
  "double_of_nat n = Fin (real n)"

text \<open>The macro \<open>M_PI\<close> of math.h is the decimal literal below.\<close>

definition M_PI :: double where
  "M_PI = Fin 3.14159265358979323846"


subsection \<open>Options, summaries, errors\<close>

datatype SLAM_VIZ_MODE = AGGREGATED | KEYPOINTS

text \<open>
  \<open>struct SLAMOptions\<close>. The dataset and odometry options are opaque to the driver:
  they only parametrise the collaborators of the record \<open>env\<close> below.
\<close>

record SLAMOptions =
  max_num_threads :: int
  suspend_on_failure :: bool
  save_trajectory :: bool
  output_dir :: string
  all_sequences :: bool
  sequence :: string
  start_index :: int
  max_frames :: int
  with_viz3d :: bool
  viz_mode :: SLAM_VIZ_MODE

definition default_SLAMOptions :: SLAMOptions where
  "default_SLAMOptions =
     \<lparr>max_num_threads = 1, suspend_on_failure = False, save_trajectory = True,
      output_dir = ''./outputs'', all_sequences = True, sequence = '''',
      start_index = 0, max_frames = - 1, with_viz3d = True, viz_mode = KEYPOINTS\<rparr>"

text \<open>What the driver reads of the summary that \<open>RegisterFrame\<close> returns.\<close>

record RegistrationSummary =
  success :: bool
  error_message :: string
  number_of_attempts :: int

text \<open>
  \<open>ct_icp::seq_errors\<close> and the per-segment \<open>errors\<close> it holds are declared in
  evaluate_slam.h; the fields are those the driver and the metrics file name.
\<close>

record errors =
  t_err :: double
  r_err :: double

record seq_errors =
  tab_errors :: "errors list"
  mean_rpe :: double
  mean_ape :: double
  max_ape :: double
  mean_local_err :: double
  max_local_err :: double
  index_max_local_err :: int
  average_elapsed_ms :: double
  mean_num_attempts :: double

record SequenceInfo =
  sequence_id :: int
  info_sequence_name :: string

subsection \<open>The collaborators\<close>

text \<open>
  Everything \<open>main\<close> calls outside slam.cpp, as parameters: \<open>'f\<close> is a raw frame,
  \<open>'o\<close> the state of the \<open>Odometry\<close> object, \<open>'t\<close> a \<open>TrajectoryFrame\<close> and
  \<open>'p\<close> a pose. \<open>CT_ICP_WITH_VIZ\<close> is the compile-time switch.

  Modelled from the spec: the dataset iterator, which is not part of slam.cpp, yields
  the frames of a sequence in acquisition order until it is exhausted. It is the list of
  the frames it still has to yield: \<open>HasNext\<close> is non-emptiness and
  \<open>NextUnfilteredFrame\<close> takes the head.
  \<open>steady_clock_now sid n j\<close> is the \<open>j\<close>-th reading of the clock (in nanoseconds) in
  the iteration of sequence \<open>sid\<close> that starts with \<open>frame_id = n\<close>, and
  \<open>pause_button_reads sid n\<close> lists the values of \<open>pause_button\<close> that the successive
  calls of \<open>ContinueSLAM\<close> of that iteration find; a list in which the button is
  never found unset is a pause that is never lifted.
\<close>

record ('f, 'o, 't, 'p) env =
  CT_ICP_WITH_VIZ :: bool
  get_sequences :: "SequenceInfo list"
  get_dataset_sequence :: "int \<Rightarrow> 'f list"
  new_Odometry :: 'o
  RegisterFrame :: "'o \<Rightarrow> 'f \<Rightarrow> RegistrationSummary \<times> 'o"
  Trajectory :: "'o \<Rightarrow> 't list"
  steady_clock_now :: "int \<Rightarrow> nat \<Rightarrow> nat \<Rightarrow> int"
  pause_button_reads :: "int \<Rightarrow> nat \<Rightarrow> bool list"
  transform_trajectory_frame :: "int \<Rightarrow> 't list \<Rightarrow> 'p list"
  sequence_name :: "int \<Rightarrow> string"
  SavePosesKITTIFormat :: "string \<Rightarrow> 'p list \<Rightarrow> bool"
  SaveTrajectoryFrame :: "string \<Rightarrow> 't list \<Rightarrow> bool"
  has_ground_truth :: "int \<Rightarrow> bool"
  load_ground_truth :: "int \<Rightarrow> 'p list"
  eval :: "'p list \<Rightarrow> 'p list \<Rightarrow> seq_errors"
  default_pose :: 'p

subsection \<open>What the process does: events, exits, variables\<close>

text \<open>
  The calls with an effect outside the process and the lines it prints, in order.
  \<open>AddModel\<close> carries the model id, \<open>SlamError\<close> the sequence id, the frame index and
  the message of the line written to \<open>std::cerr\<close>, \<open>Results\<close> the block printed for
  an evaluated sequence (its name, \<open>valid_trajectory\<close>, the errors, the average number
  of attempts and the average duration).
\<close>

datatype ('f, 't, 'p) event =
    LaunchMainLoop
  | SequenceNotFound string
  | StartingAtFrame int
  | NextUnfilteredFrame 'f
  | RegisterFrameCall 'f
  | SetCameraPose
  | AddModel int
  | ContinueSLAMRead bool
  | SleepFor10ms
  | SlamError int nat string
  | JoinGuiThread
  | SavePosesCall string "'p list"
  | SaveTrajectoryCall string "'t list"
  | SaveError string string
  | Results string bool seq_errors double double
  | SaveMetricsCall "(string \<times> seq_errors) list" string bool
  | KittiMetric double double
  | AverageRPE double
  | AverageRegistrationTime double

text \<open>\<open>Exited c\<close> is a call of \<open>exit(c)\<close>; \<open>Normal x\<close> is control reaching the next statement.\<close>

datatype 'a flow = Exited int | Normal 'a

text \<open>
  The variables of \<open>main\<close> that its loops update. The counters are \<open>int\<close> in the
  source and never negative; they are natural numbers here, and their overflow (undefined
  behaviour, after \<open>2^31\<close> frames) is not modelled.
\<close>

record 'o main_vars =
  sequence_name_to_errors :: "(string \<times> seq_errors) list"
  dataset_with_gt :: bool
  all_seq_registration_elapsed_ms :: double
  all_seq_num_frames :: nat
  average_rpe_on_seq :: double
  nb_seq_with_gt :: nat
  odometry :: 'o
  registration_elapsed_ms :: double
  avg_number_of_attempts :: double
  frame_id :: nat

section \<open>The driver of slam.cpp: operations\<close>

subsection \<open>std::map and std::vector\<close>

text \<open>
  A \<open>std::map<std::string, seq_errors>\<close> is kept as the list of its entries in
  iteration order, which is the ascending order of the keys. \<open>map_assign k v m\<close> is
  \<open>m[k] = v\<close>.
\<close>

fun map_assign :: "string \<Rightarrow> 'v \<Rightarrow> (string \<times> 'v) list \<Rightarrow> (string \<times> 'v) list" where
  "map_assign k v [] = [(k, v)]"
| "map_assign k v ((k', v') # m) =
     (if k = k' then (k, v) # m
      else if k < k' then (k, v) # (k', v') # m
      else (k', v') # map_assign k v m)"

text \<open>
  \<open>std::vector::resize\<close>: a longer vector is cut, a shorter one is filled with
  default-constructed elements.
\<close>

definition resize :: "nat \<Rightarrow> 'a \<Rightarrow> 'a list \<Rightarrow> 'a list" where
  "resize n d xs = take n xs @ replicate (n - length xs) d"

subsection \<open>One iteration of the frame loop\<close>

text \<open>
  \<open>while (!window->ContinueSLAM()) sleep_for(0.01)\<close> (lines 302-306), on the values
  the reads of \<open>pause_button\<close> find. \<open>None\<close>: the loop never ends.
\<close>

fun poll_pause :: "bool list \<Rightarrow> ('f, 't, 'p) event list option" where
  "poll_pause [] = None"
| "poll_pause (pause_button # later) =
     (if \<not> pause_button then Some [ContinueSLAMRead True]
      else (case poll_pause later of
              None \<Rightarrow> None
            | Some es \<Rightarrow> Some (ContinueSLAMRead False # SleepFor10ms # es)))"

text \<open>
  The visualisation block of lines 271-308, compiled only with \<open>CT_ICP_WITH_VIZ\<close>. The
  window exists exactly when \<open>with_viz3d\<close> is set.
\<close>

definition publish_viz ::
  "SLAMOptions \<Rightarrow> ('f, 'o, 't, 'p) env \<Rightarrow> int \<Rightarrow> nat \<Rightarrow> ('f, 't, 'p) event list option" where
  "publish_viz opts e sid n =
     (if CT_ICP_WITH_VIZ e \<and> with_viz3d opts then
        (case poll_pause (pause_button_reads e sid n) of
           None \<Rightarrow> None
         | Some polls \<Rightarrow>
             Some ([SetCameraPose, AddModel (- 11)]
                   @ (if viz_mode opts = AGGREGATED then [AddModel (int (n mod 500))] else [])
                   @ polls))
      else Some [])"

text \<open>\<open>gui_thread->join()\<close> before \<open>exit(1)\<close>: the thread exists exactly when the
  program is compiled with the visualisation and \<open>with_viz3d\<close> is set.\<close>

definition join_gui :: "SLAMOptions \<Rightarrow> ('f, 'o, 't, 'p) env \<Rightarrow> ('f, 't, 'p) event list" where
  "join_gui opts e = (if CT_ICP_WITH_VIZ e \<and> with_viz3d opts then [JoinGuiThread] else [])"

text \<open>
  \<open>registration_elapsed.count() * 1000\<close>: the difference of two clock readings, as
  seconds in a double, times 1000.
\<close>

definition elapsed_ms :: "int \<Rightarrow> int \<Rightarrow> double" where
  "elapsed_ms t_from t_to = dmul (ddiv (double_of_int (t_to - t_from)) (Fin 1000000000)) (Fin 1000)"

text \<open>
  Lines 256-269: a frame is taken from the iterator and registered, and the attempts
  and the registration time are added to the running totals, whatever the summary says.
\<close>

definition register_vars ::
  "('f, 'o, 't, 'p) env \<Rightarrow> int \<Rightarrow> 'f \<Rightarrow> 'o main_vars \<Rightarrow> RegistrationSummary \<times> 'o main_vars" where
  "register_vars e sid frame v =
     (let time_read_pointcloud = steady_clock_now e sid (frame_id v) 1;
          r = RegisterFrame e (odometry v) frame;
          summary = fst r;
          time_register_frame = steady_clock_now e sid (frame_id v) 2;
          ms = elapsed_ms time_read_pointcloud time_register_frame
      in (summary,
          v\<lparr>odometry := snd r,
            avg_number_of_attempts :=
              dadd (avg_number_of_attempts v) (double_of_int (number_of_attempts summary)),
            registration_elapsed_ms := dadd (registration_elapsed_ms v) ms,
            all_seq_registration_elapsed_ms := dadd (all_seq_registration_elapsed_ms v) ms\<rparr>))"

text \<open>
  Lines 256-308: the registration above, then the visualisation and the pause gate.
  The result is the events, the summary and the variables before the test of
  \<open>summary.success\<close>.
\<close>

definition register_frame ::
  "SLAMOptions \<Rightarrow> ('f, 'o, 't, 'p) env \<Rightarrow> int \<Rightarrow> 'f \<Rightarrow> 'o main_vars \<Rightarrow>
     (('f, 't, 'p) event list \<times> RegistrationSummary \<times> 'o main_vars) option" where
  "register_frame opts e sid frame v =
     (case publish_viz opts e sid (frame_id v) of
        None \<Rightarrow> None
      | Some viz \<Rightarrow>
          Some ([NextUnfilteredFrame frame, RegisterFrameCall frame] @ viz,
                register_vars e sid frame v))"

subsection \<open>The frame loop of one sequence\<close>

text \<open>Lines 323-324: \<open>frame_id++; all_seq_num_frames++\<close>.\<close>

definition count_frame :: "'o main_vars \<Rightarrow> 'o main_vars" where
  "count_frame v = v\<lparr>frame_id := frame_id v + 1, all_seq_num_frames := all_seq_num_frames v + 1\<rparr>"

text \<open>
  The \<open>while\<close> loop of lines 255-325 on the frames the iterator still holds. A failed
  registration is reported and then either ends the process (\<open>exit(1)\<close>, after the join)
  or leaves the loop by \<open>break\<close>, before the counters are incremented.
\<close>

fun frame_loop ::
  "SLAMOptions \<Rightarrow> ('f, 'o, 't, 'p) env \<Rightarrow> int \<Rightarrow> 'f list \<Rightarrow> 'o main_vars \<Rightarrow>
     (('f, 't, 'p) event list \<times> 'o main_vars flow) option" where
  "frame_loop opts e sid [] v = Some ([], Normal v)"
| "frame_loop opts e sid (frame # later) v =
     (if max_frames opts < 0 \<or> int (frame_id v) < max_frames opts then
        (case register_frame opts e sid frame v of
           None \<Rightarrow> None
         | Some (es, summary, v') \<Rightarrow>
             if \<not> success summary then
               (if suspend_on_failure opts
                then Some (es @ [SlamError sid (frame_id v') (error_message summary)]
                              @ join_gui opts e, Exited 1)
                else Some (es @ [SlamError sid (frame_id v') (error_message summary)], Normal v'))
             else
               (case frame_loop opts e sid later (count_frame v') of
                  None \<Rightarrow> None
                | Some (es', r) \<Rightarrow> Some (es @ es', r)))
      else Some ([], Normal v))"

subsection \<open>After the frame loop: saving and evaluating\<close>

text \<open>
  Lines 334-353. \<open>SaveTrajectoryFrame\<close> is called only when \<open>SavePosesKITTIFormat\<close>
  succeeded (\<open>||\<close> evaluates its right operand only then).
\<close>

definition save_poses ::
  "SLAMOptions \<Rightarrow> ('f, 'o, 't, 'p) env \<Rightarrow> string \<Rightarrow> 't list \<Rightarrow> 'p list \<Rightarrow>
     ('f, 't, 'p) event list \<times> unit flow" where
  "save_poses opts e name trajectory poses =
     (if save_trajectory opts then
        (let filepath = output_dir opts @ name @ ''_poses.txt'';
             dual_poses_filepath = output_dir opts @ name @ ''_dual_poses.txt'';
             saved = SavePosesKITTIFormat e filepath poses;
             calls = SavePosesCall filepath poses
                     # (if saved then [SaveTrajectoryCall dual_poses_filepath trajectory] else [])
         in if \<not> saved \<or> \<not> SaveTrajectoryFrame e dual_poses_filepath trajectory then
              (if suspend_on_failure opts
               then (calls @ [SaveError filepath (output_dir opts)] @ join_gui opts e, Exited 1)
               else (calls @ [SaveError filepath (output_dir opts)], Normal ()))
            else (calls, Normal ()))
      else ([], Normal ()))"

text \<open>
  Lines 361-367: the ground truth is loaded, resized to the number of estimated poses
  when the two differ, and scored against them. The result is \<open>valid_trajectory\<close> and
  what \<open>ct_icp::eval\<close> returns.
\<close>

definition evaluate_poses :: "('f, 'o, 't, 'p) env \<Rightarrow> int \<Rightarrow> 'p list \<Rightarrow> bool \<times> seq_errors" where
  "evaluate_poses e sid poses =
     (let ground_truth_poses = load_ground_truth e sid;
          valid_trajectory = (length ground_truth_poses = length poses);
          ground_truth_poses =
            (if \<not> valid_trajectory
             then resize (length poses) (default_pose e) ground_truth_poses
             else ground_truth_poses)
      in (valid_trajectory, eval e ground_truth_poses poses))"

text \<open>
  Lines 357-394, for the sequence \<open>sid\<close> named \<open>name\<close> with the estimated absolute
  poses \<open>poses\<close>; \<open>v\<close> holds the variables after line 327.
\<close>

definition evaluate ::
  "SLAMOptions \<Rightarrow> ('f, 'o, 't, 'p) env \<Rightarrow> int \<Rightarrow> string \<Rightarrow> 'p list \<Rightarrow> 'o main_vars \<Rightarrow>
     ('f, 't, 'p) event list \<times> 'o main_vars" where
  "evaluate opts e sid name poses v =
     (if has_ground_truth e sid then
        (let valid_trajectory = fst (evaluate_poses e sid poses);
             average_duration = ddiv (registration_elapsed_ms v) (double_of_nat (frame_id v));
             seq_error = (snd (evaluate_poses e sid poses))
               \<lparr>average_elapsed_ms := average_duration,
                mean_num_attempts := avg_number_of_attempts v\<rparr>;
             m = map_assign name seq_error (sequence_name_to_errors v)
         in ([Results name valid_trajectory seq_error (avg_number_of_attempts v) average_duration,
              SaveMetricsCall m (output_dir opts @ ''metrics.yaml'') valid_trajectory],
             v\<lparr>dataset_with_gt := True,
               nb_seq_with_gt := nb_seq_with_gt v + 1,
               average_rpe_on_seq := dadd (average_rpe_on_seq v) (mean_rpe seq_error),
               sequence_name_to_errors := m\<rparr>))
      else ([], v))"

subsection \<open>One sequence, all sequences\<close>

text \<open>
  The frames the iterator of a sequence yields. Modelled from the spec: \<open>SetInitFrame\<close>
  is a method of the dataset iterator, which is not part of slam.cpp; it positions the
  iterator at the given index.
\<close>

definition sequence_frames :: "SLAMOptions \<Rightarrow> ('f, 'o, 't, 'p) env \<Rightarrow> int \<Rightarrow> 'f list" where
  "sequence_frames opts e sid =
     (if \<not> all_sequences opts \<and> 0 < start_index opts
      then drop (nat (start_index opts)) (get_dataset_sequence e sid)
      else get_dataset_sequence e sid)"

text \<open>Lines 251-254: the line printed when the iterator is positioned.\<close>

definition announce_start :: "SLAMOptions \<Rightarrow> ('f, 't, 'p) event list" where
  "announce_start opts =
     (if \<not> all_sequences opts \<and> 0 < start_index opts
      then [StartingAtFrame (start_index opts)] else [])"

text \<open>Lines 243-250: the variables an iteration of the outer loop declares.\<close>

definition begin_sequence :: "('f, 'o, 't, 'p) env \<Rightarrow> 'o main_vars \<Rightarrow> 'o main_vars" where
  "begin_sequence e g =
     g\<lparr>odometry := new_Odometry e, registration_elapsed_ms := Fin 0,
       avg_number_of_attempts := Fin 0, frame_id := 0\<rparr>"

text \<open>Line 327: \<open>avg_number_of_attempts /= frame_id\<close>.\<close>

definition average_attempts :: "'o main_vars \<Rightarrow> 'o main_vars" where
  "average_attempts v =
     v\<lparr>avg_number_of_attempts := ddiv (avg_number_of_attempts v) (double_of_nat (frame_id v))\<rparr>"

text \<open>Lines 327-394: what follows the frame loop of the sequence \<open>sid\<close>.\<close>

definition finish_sequence ::
  "SLAMOptions \<Rightarrow> ('f, 'o, 't, 'p) env \<Rightarrow> int \<Rightarrow> 'o main_vars \<Rightarrow>
     ('f, 't, 'p) event list \<times> 'o main_vars flow" where
  "finish_sequence opts e sid v =
     (let v1 = average_attempts v;
          trajectory = Trajectory e (odometry v1);
          trajectory_absolute_poses = transform_trajectory_frame e sid trajectory;
          name = sequence_name e sid
      in case save_poses opts e name trajectory trajectory_absolute_poses of
           (saves, Exited c) \<Rightarrow> (saves, Exited c)
         | (saves, Normal _) \<Rightarrow>
             (case evaluate opts e sid name trajectory_absolute_poses v1 of
                (evals, v2) \<Rightarrow> (saves @ evals, Normal v2)))"

text \<open>The body of the outer loop (lines 240-395) for one sequence.\<close>

definition run_sequence ::
  "SLAMOptions \<Rightarrow> ('f, 'o, 't, 'p) env \<Rightarrow> int \<Rightarrow> 'o main_vars \<Rightarrow>
     (('f, 't, 'p) event list \<times> 'o main_vars flow) option" where
  "run_sequence opts e sid g =
     (case frame_loop opts e sid (sequence_frames opts e sid) (begin_sequence e g) of
        None \<Rightarrow> None
      | Some (es, Exited c) \<Rightarrow> Some (announce_start opts @ es, Exited c)
      | Some (es, Normal v) \<Rightarrow>
          (case finish_sequence opts e sid v of
             (es', r) \<Rightarrow> Some (announce_start opts @ es @ es', r)))"

fun run_sequences ::
  "SLAMOptions \<Rightarrow> ('f, 'o, 't, 'p) env \<Rightarrow> SequenceInfo list \<Rightarrow> 'o main_vars \<Rightarrow>
     (('f, 't, 'p) event list \<times> 'o main_vars flow) option" where
  "run_sequences opts e [] g = Some ([], Normal g)"
| "run_sequences opts e (s # later) g =
     (case run_sequence opts e (sequence_id s) g of
        None \<Rightarrow> None
      | Some (es, Exited c) \<Rightarrow> Some (es, Exited c)
      | Some (es, Normal g') \<Rightarrow>
          (case run_sequences opts e later g' of
             None \<Rightarrow> None
           | Some (es', r) \<Rightarrow> Some (es @ es', r)))"

subsection \<open>The summary over all sequences and main\<close>

text \<open>
  Lines 399-408: the two nested loops over the entries of the map and over the
  per-segment errors of each entry; the accumulator is
  \<open>(all_seq_rpe_t, all_seq_rpe_r, num_total_errors)\<close>.
\<close>

definition add_tab_errors :: "double \<times> double \<times> double \<Rightarrow> errors list \<Rightarrow> double \<times> double \<times> double" where
  "add_tab_errors =
     foldl (\<lambda>(t, r, n) tab_error. (dadd t (t_err tab_error), dadd r (r_err tab_error), dadd n (Fin 1)))"

definition all_seq_sums :: "(string \<times> seq_errors) list \<Rightarrow> double \<times> double \<times> double" where
  "all_seq_sums m = foldl (\<lambda>acc pair. add_tab_errors acc (tab_errors (snd pair))) (Fin 0, Fin 0, Fin 0) m"

definition kitti_translation :: "(string \<times> seq_errors) list \<Rightarrow> double" where
  "kitti_translation m =
     (case all_seq_sums m of (t, r, n) \<Rightarrow> dmul (ddiv t n) (Fin 100))"

definition kitti_rotation :: "(string \<times> seq_errors) list \<Rightarrow> double" where
  "kitti_rotation m =
     (case all_seq_sums m of (t, r, n) \<Rightarrow> ddiv (dmul (ddiv r n) (Fin 180)) M_PI)"

text \<open>Lines 397-416: what is printed after the last sequence.\<close>

definition final_report :: "'o main_vars \<Rightarrow> ('f, 't, 'p) event list" where
  "final_report g =
     (if dataset_with_gt g then
        [KittiMetric (kitti_translation (sequence_name_to_errors g))
                     (kitti_rotation (sequence_name_to_errors g)),
         AverageRPE (ddiv (average_rpe_on_seq g) (double_of_nat (nb_seq_with_gt g)))]
      else [])
     @ [AverageRegistrationTime
          (ddiv (all_seq_registration_elapsed_ms g) (double_of_nat (all_seq_num_frames g)))]"

text \<open>Lines 200-219: all sequences, or the first one with the configured name.\<close>

definition select_sequences :: "SLAMOptions \<Rightarrow> SequenceInfo list \<Rightarrow> SequenceInfo list option" where
  "select_sequences opts sequences =
     (if all_sequences opts then Some sequences
      else (case find (\<lambda>s. info_sequence_name s = sequence opts) sequences of
              None \<Rightarrow> None
            | Some s \<Rightarrow> Some [s]))"

text \<open>Lines 233-238: the variables before the first sequence.\<close>

definition initial_vars :: "('f, 'o, 't, 'p) env \<Rightarrow> 'o main_vars" where
  "initial_vars e =
     \<lparr>sequence_name_to_errors = [], dataset_with_gt = False,
      all_seq_registration_elapsed_ms = Fin 0, all_seq_num_frames = 0,
      average_rpe_on_seq = Fin 0, nb_seq_with_gt = 0,
      odometry = new_Odometry e, registration_elapsed_ms = Fin 0,
      avg_number_of_attempts = Fin 0, frame_id = 0\<rparr>"

text \<open>Lines 222-231: the thread of the visualisation and the window with the pause button.\<close>

definition launch_gui :: "SLAMOptions \<Rightarrow> ('f, 'o, 't, 'p) env \<Rightarrow> ('f, 't, 'p) event list" where
  "launch_gui opts e = (if CT_ICP_WITH_VIZ e \<and> with_viz3d opts then [LaunchMainLoop] else [])"

text \<open>
  \<open>main\<close>, once the options are read: the events of the run and the exit code, or
  \<open>None\<close> when a pause is never lifted.
\<close>

definition main :: "SLAMOptions \<Rightarrow> ('f, 'o, 't, 'p) env \<Rightarrow> (('f, 't, 'p) event list \<times> int) option" where
  "main opts e =
     (case select_sequences opts (get_sequences e) of
        None \<Rightarrow> Some ([SequenceNotFound (sequence opts)], 1)
      | Some sequences \<Rightarrow>
          (case run_sequences opts e sequences (initial_vars e) of
             None \<Rightarrow> None
           | Some (es, Exited c) \<Rightarrow> Some (launch_gui opts e @ es, c)
           | Some (es, Normal g) \<Rightarrow>
               Some (launch_gui opts e @ es @ final_report g @ join_gui opts e, 0)))"

section \<open>Notions the properties are stated with\<close>

subsection \<open>The registration engine on its own\<close>

text \<open>The summaries of successive calls of \<open>RegisterFrame\<close> from the state \<open>od\<close>.\<close>

fun summaries :: "('f, 'o, 't, 'p) env \<Rightarrow> 'o \<Rightarrow> 'f list \<Rightarrow> RegistrationSummary list" where
  "summaries e od [] = []"
| "summaries e od (f # fs) =
     fst (RegisterFrame e od f) # summaries e (snd (RegisterFrame e od f)) fs"

text \<open>The state of the engine after these calls.\<close>

fun odometry_after :: "('f, 'o, 't, 'p) env \<Rightarrow> 'o \<Rightarrow> 'f list \<Rightarrow> 'o" where
  "odometry_after e od [] = od"
| "odometry_after e od (f # fs) = odometry_after e (snd (RegisterFrame e od f)) fs"

text \<open>The registration time measured in the iteration that starts with \<open>frame_id = n\<close>.\<close>

definition frame_ms :: "('f, 'o, 't, 'p) env \<Rightarrow> int \<Rightarrow> nat \<Rightarrow> double" where
  "frame_ms e sid n = elapsed_ms (steady_clock_now e sid n 1) (steady_clock_now e sid n 2)"

text \<open>
  The frames a sequence run hands to the engine, with neither events nor totals: the
  state of the engine when the frame loop is left.
\<close>

fun odometry_loop :: "SLAMOptions \<Rightarrow> ('f, 'o, 't, 'p) env \<Rightarrow> nat \<Rightarrow> 'o \<Rightarrow> 'f list \<Rightarrow> 'o" where
  "odometry_loop opts e n od [] = od"
| "odometry_loop opts e n od (f # fs) =
     (if max_frames opts < 0 \<or> int n < max_frames opts then
        (if success (fst (RegisterFrame e od f))
         then odometry_loop opts e (Suc n) (snd (RegisterFrame e od f)) fs
         else snd (RegisterFrame e od f))
      else od)"

definition estimated_poses :: "SLAMOptions \<Rightarrow> ('f, 'o, 't, 'p) env \<Rightarrow> int \<Rightarrow> 'p list" where
  "estimated_poses opts e sid =
     transform_trajectory_frame e sid
       (Trajectory e (odometry_loop opts e 0 (new_Odometry e) (sequence_frames opts e sid)))"

text \<open>What \<open>ct_icp::eval\<close> returns for a sequence with ground truth.\<close>

definition sequence_errors :: "SLAMOptions \<Rightarrow> ('f, 'o, 't, 'p) env \<Rightarrow> int \<Rightarrow> seq_errors" where
  "sequence_errors opts e sid = snd (evaluate_poses e sid (estimated_poses opts e sid))"

text \<open>The ids of the sequences with ground truth, in the order they are processed.\<close>

definition ground_truth_ids :: "('f, 'o, 't, 'p) env \<Rightarrow> SequenceInfo list \<Rightarrow> int list" where
  "ground_truth_ids e sequences = filter (has_ground_truth e) (map sequence_id sequences)"

subsection \<open>Reading a run\<close>

fun registered :: "('f, 't, 'p) event list \<Rightarrow> 'f list" where
  "registered [] = []"
| "registered (RegisterFrameCall f # es) = f # registered es"
| "registered (_ # es) = registered es"

fun acquired :: "('f, 't, 'p) event list \<Rightarrow> 'f list" where
  "acquired [] = []"
| "acquired (NextUnfilteredFrame f # es) = f # acquired es"
| "acquired (_ # es) = acquired es"

text \<open>The failures reported on \<open>std::cerr\<close>: sequence id, frame index, message.\<close>

fun reported :: "('f, 't, 'p) event list \<Rightarrow> (int \<times> nat \<times> string) list" where
  "reported [] = []"
| "reported (SlamError sid k msg # es) = (sid, k, msg) # reported es"
| "reported (_ # es) = reported es"

text \<open>The mappings handed to \<open>SaveMetrics\<close>, with the validity flag, in order.\<close>

fun saved_metrics :: "('f, 't, 'p) event list \<Rightarrow> ((string \<times> seq_errors) list \<times> bool) list" where
  "saved_metrics [] = []"
| "saved_metrics (SaveMetricsCall m path valid # es) = (m, valid) # saved_metrics es"
| "saved_metrics (_ # es) = saved_metrics es"


text \<open>The lines of the summary printed after the last sequence (lines 397-416).\<close>

fun summary :: "('f, 't, 'p) event list \<Rightarrow> ('f, 't, 'p) event list" where
  "summary [] = []"
| "summary (KittiMetric t r # es) = KittiMetric t r # summary es"
| "summary (AverageRPE x # es) = AverageRPE x # summary es"
| "summary (AverageRegistrationTime x # es) = AverageRegistrationTime x # summary es"
| "summary (_ # es) = summary es"

text \<open>Every pause is lifted: each list of reads of \<open>pause_button\<close> holds a \<open>false\<close>.\<close>

definition pauses_end :: "('f, 'o, 't, 'p) env \<Rightarrow> bool" where
  "pauses_end e = (\<forall>sid n. False \<in> set (pause_button_reads e sid n))"

text \<open>Whether the control surface (the window with the pause button) exists.\<close>

definition control_surface :: "SLAMOptions \<Rightarrow> ('f, 'o, 't, 'p) env \<Rightarrow> bool" where
  "control_surface opts e = (CT_ICP_WITH_VIZ e \<and> with_viz3d opts)"

text \<open>The variables after iterations of the frame loop that all succeed.\<close>

fun vars_after :: "('f, 'o, 't, 'p) env \<Rightarrow> int \<Rightarrow> 'o main_vars \<Rightarrow> 'f list \<Rightarrow> 'o main_vars" where
  "vars_after e sid v [] = v"
| "vars_after e sid v (f # fs) = vars_after e sid (count_frame (snd (register_vars e sid f v))) fs"

text \<open>The test of the \<open>while\<close> loop on the cap, with \<open>n\<close> frames counted.\<close>

definition below_cap :: "SLAMOptions \<Rightarrow> nat \<Rightarrow> bool" where
  "below_cap opts n = (max_frames opts < 0 \<or> int n < max_frames opts)"

subsection \<open>What the driver expects of the engine\<close>


subsection \<open>The pause gate, as a protocol on the events of a run\<close>

text \<open>
  Where the registration loop stands with respect to the gate: \<open>Running\<close> between
  frames, \<open>AwaitingGate\<close> once a frame was handed to the engine and the gate was not
  yet found open, \<open>Paused\<close> after a call of \<open>ContinueSLAM\<close> that returned false,
  \<open>Sleeping\<close> after the sleep of 10 ms that follows it.
\<close>

datatype gate_state = Running | AwaitingGate | Paused | Sleeping

text \<open>
  What the gate allows next. After a registration only the visualisation may be updated
  until the gate is read; after a read that returned false nothing but the sleep and the
  next read may happen, so no frame is acquired or registered until a read returns true.
  The gate is read nowhere else.
\<close>

fun gate_step :: "gate_state \<Rightarrow> ('f, 't, 'p) event \<Rightarrow> gate_state option" where
  "gate_step Running (RegisterFrameCall f) = Some AwaitingGate"
| "gate_step Running (ContinueSLAMRead b) = None"
| "gate_step Running SleepFor10ms = None"
| "gate_step Running _ = Some Running"
| "gate_step AwaitingGate SetCameraPose = Some AwaitingGate"
| "gate_step AwaitingGate (AddModel i) = Some AwaitingGate"
| "gate_step AwaitingGate (ContinueSLAMRead b) = Some (if b then Running else Paused)"
| "gate_step AwaitingGate _ = None"
| "gate_step Paused SleepFor10ms = Some Sleeping"
| "gate_step Paused _ = None"
| "gate_step Sleeping (ContinueSLAMRead b) = Some (if b then Running else Paused)"
| "gate_step Sleeping _ = None"

text \<open>The state a list of events leads to, or \<open>None\<close> when an event is not allowed.\<close>

fun gate_protocol :: "gate_state \<Rightarrow> ('f, 't, 'p) event list \<Rightarrow> gate_state option" where
  "gate_protocol s [] = Some s"
| "gate_protocol s (ev # es) =
     (case gate_step s ev of None \<Rightarrow> None | Some s' \<Rightarrow> gate_protocol s' es)"

fun is_gate_event :: "('f, 't, 'p) event \<Rightarrow> bool" where
  "is_gate_event (ContinueSLAMRead b) = True"
| "is_gate_event SleepFor10ms = True"
| "is_gate_event _ = False"

subsection \<open>The pause gate against the values of the button\<close>

text \<open>
  Modelled from the spec: waiting at the gate. \<open>ContinueSLAM\<close> returns the negation of
  \<open>pause_button\<close>; while it returns false the loop sleeps 10 ms and asks again, and the
  first answer that is true ends the wait. \<open>bs\<close> lists the values of the button that
  the successive calls find: each value that is set, up to the first that is not, costs
  one call that returns false and one sleep.
\<close>

definition gate_wait :: "bool list \<Rightarrow> ('f, 't, 'p) event list" where
  "gate_wait bs =
     concat (replicate (length (takeWhile (\<lambda>pause_button. pause_button) bs))
                       [ContinueSLAMRead False, SleepFor10ms])
     @ [ContinueSLAMRead True]"

text \<open>The button is found set by every call of \<open>ContinueSLAM\<close> of an iteration.\<close>

definition endless_pause :: "('f, 'o, 't, 'p) env \<Rightarrow> int \<Rightarrow> nat \<Rightarrow> bool" where
  "endless_pause e sid n = list_all (\<lambda>pause_button. pause_button) (pause_button_reads e sid n)"

text \<open>
  The events of a run that concern the frames and the gate: a frame taken from the
  iterator, a frame handed to the engine, a call of \<open>ContinueSLAM\<close>, a sleep.
\<close>

fun is_loop_event :: "('f, 't, 'p) event \<Rightarrow> bool" where
  "is_loop_event (NextUnfilteredFrame f) = True"
| "is_loop_event (RegisterFrameCall f) = True"
| "is_loop_event (ContinueSLAMRead b) = True"
| "is_loop_event SleepFor10ms = True"
| "is_loop_event _ = False"

text \<open>
  The frames the frame loop hands to the engine, from the engine alone: the frames of the
  iterator in order, as long as the cap allows, up to and including the first one
  whose registration fails. \<open>n\<close> is \<open>frame_id\<close> and \<open>od\<close> the state of the engine.
\<close>

fun loop_frames :: "SLAMOptions \<Rightarrow> ('f, 'o, 't, 'p) env \<Rightarrow> nat \<Rightarrow> 'o \<Rightarrow> 'f list \<Rightarrow> 'f list" where
  "loop_frames opts e n od [] = []"
| "loop_frames opts e n od (f # fs) =
     (if max_frames opts < 0 \<or> int n < max_frames opts then
        f # (if success (fst (RegisterFrame e od f))
             then loop_frames opts e (Suc n) (snd (RegisterFrame e od f)) fs
             else [])
      else [])"

text \<open>Whether the frame loop is left because a registration failed.\<close>

fun loop_fails :: "SLAMOptions \<Rightarrow> ('f, 'o, 't, 'p) env \<Rightarrow> nat \<Rightarrow> 'o \<Rightarrow> 'f list \<Rightarrow> bool" where
  "loop_fails opts e n od [] = False"
| "loop_fails opts e n od (f # fs) =
     (if max_frames opts < 0 \<or> int n < max_frames opts then
        (if success (fst (RegisterFrame e od f))
         then loop_fails opts e (Suc n) (snd (RegisterFrame e od f)) fs
         else True)
      else False)"

text \<open>
  Modelled from the spec: what the registration loop does with the frames \<open>fs\<close> and at
  the gate. A frame is taken and handed to the engine; then, when there is a control
  surface, the loop waits at the gate on the values the button has in this iteration;
  only then is the next frame taken. Without a control surface nothing is asked.
\<close>

fun loop_events ::
  "SLAMOptions \<Rightarrow> ('f, 'o, 't, 'p) env \<Rightarrow> int \<Rightarrow> nat \<Rightarrow> 'f list \<Rightarrow> ('f, 't, 'p) event list" where
  "loop_events opts e sid n [] = []"
| "loop_events opts e sid n (f # fs) =
     [NextUnfilteredFrame f, RegisterFrameCall f]
     @ (if control_surface opts e then gate_wait (pause_button_reads e sid n) else [])
     @ loop_events opts e sid (Suc n) fs"

text \<open>The same for a whole sequence, whose frame loop starts with \<open>frame_id = 0\<close>.\<close>

definition sequence_loop_frames :: "SLAMOptions \<Rightarrow> ('f, 'o, 't, 'p) env \<Rightarrow> int \<Rightarrow> 'f list" where
  "sequence_loop_frames opts e sid = loop_frames opts e 0 (new_Odometry e) (sequence_frames opts e sid)"

definition sequence_loop_events ::
  "SLAMOptions \<Rightarrow> ('f, 'o, 't, 'p) env \<Rightarrow> int \<Rightarrow> ('f, 't, 'p) event list" where
  "sequence_loop_events opts e sid = loop_events opts e sid 0 (sequence_loop_frames opts e sid)"

text \<open>
  There is a control surface and one of the iterations of the sequence finds the button
  set at every call: a pause that is never lifted.
\<close>

definition meets_endless_pause :: "SLAMOptions \<Rightarrow> ('f, 'o, 't, 'p) env \<Rightarrow> int \<Rightarrow> bool" where
  "meets_endless_pause opts e sid =
     (control_surface opts e \<and>
      list_ex (endless_pause e sid) [0..<length (sequence_loop_frames opts e sid)])"

text \<open>
  The process exits in the sequence: \<open>suspend_on_failure\<close> is set and either a
  registration fails (lines 309-318) or the poses cannot be saved (lines 341-351).
\<close>

definition sequence_exits :: "SLAMOptions \<Rightarrow> ('f, 'o, 't, 'p) env \<Rightarrow> int \<Rightarrow> bool" where
  "sequence_exits opts e sid =
     (suspend_on_failure opts \<and>
      (loop_fails opts e 0 (new_Odometry e) (sequence_frames opts e sid) \<or>
       snd (save_poses opts e (sequence_name e sid)
              (Trajectory e (odometry_loop opts e 0 (new_Odometry e) (sequence_frames opts e sid)))
              (estimated_poses opts e sid)) = Exited 1))"

text \<open>The sequences a run gets to: those up to and including the first in which it exits.\<close>

fun performed :: "SLAMOptions \<Rightarrow> ('f, 'o, 't, 'p) env \<Rightarrow> int list \<Rightarrow> int list" where
  "performed opts e [] = []"
| "performed opts e (sid # later) =
     sid # (if sequence_exits opts e sid then [] else performed opts e later)"

subsection \<open>The KITTI metrics over all the segments\<close>

text \<open>
  Modelled from the spec: the per-segment errors of all the sequences with ground truth,
  and the two metrics computed over them: the sum of the translation errors divided by
  the number of segments, times 100, and the sum of the rotation errors divided by the
  number of segments, converted from radians to degrees.
\<close>

definition all_segments :: "SLAMOptions \<Rightarrow> ('f, 'o, 't, 'p) env \<Rightarrow> SequenceInfo list \<Rightarrow> errors list" where
  "all_segments opts e sequences =
     concat (map (\<lambda>sid. tab_errors (sequence_errors opts e sid)) (ground_truth_ids e sequences))"

definition spec_kitti_translation ::
  "SLAMOptions \<Rightarrow> ('f, 'o, 't, 'p) env \<Rightarrow> SequenceInfo list \<Rightarrow> double" where
  "spec_kitti_translation opts e sequences =
     dmul (ddiv (foldl dadd (Fin 0) (map t_err (all_segments opts e sequences)))
                (double_of_nat (length (all_segments opts e sequences))))
          (Fin 100)"

definition spec_kitti_rotation ::
  "SLAMOptions \<Rightarrow> ('f, 'o, 't, 'p) env \<Rightarrow> SequenceInfo list \<Rightarrow> double" where
  "spec_kitti_rotation opts e sequences =
     ddiv (dmul (ddiv (foldl dadd (Fin 0) (map r_err (all_segments opts e sequences)))
                      (double_of_nat (length (all_segments opts e sequences))))
                (Fin 180))
          M_PI"

section \<open>A small dataset to run the driver on\<close>

text \<open>
  Frames are numbers and the engine state is the list of the frames registered with
  success; frame \<open>0\<close> cannot be registered. Each call takes two attempts, and the
  registration in the iteration with \<open>frame_id = n\<close> takes \<open>n + 1\<close> milliseconds.
  Sequence \<open>0\<close> (named \<open>00\<close>) has four frames, the third of which fails, and ground
  truth; sequence \<open>1\<close> (named \<open>01\<close>) has two frames and no ground truth. The pause
  button is found set twice after the second frame of a sequence.
\<close>

definition demo_eval :: "nat list \<Rightarrow> nat list \<Rightarrow> seq_errors" where
  "demo_eval gt est =
     \<lparr>tab_errors = map (\<lambda>(a, b). \<lparr>t_err = Fin (real a / 100), r_err = Fin (real b / 1000)\<rparr>) (zip gt est),
      mean_rpe = Fin 0.02, mean_ape = Fin 0, max_ape = Fin 0, mean_local_err = Fin 0,
      max_local_err = Fin 0, index_max_local_err = 0, average_elapsed_ms = Fin 0,
      mean_num_attempts = Fin 0\<rparr>"

definition demo_env :: "(nat, nat list, nat, nat) env" where
  "demo_env =
     \<lparr>CT_ICP_WITH_VIZ = True,
      get_sequences = [\<lparr>sequence_id = 0, info_sequence_name = ''00''\<rparr>,
                       \<lparr>sequence_id = 1, info_sequence_name = ''01''\<rparr>],
      get_dataset_sequence = (\<lambda>sid. if sid = 0 then [1, 2, 0, 4] else [5, 6]),
      new_Odometry = [],
      RegisterFrame = (\<lambda>od f. (\<lparr>success = (f \<noteq> 0), error_message = ''lost'', number_of_attempts = 2\<rparr>,
                                if f \<noteq> 0 then od @ [f] else od)),
      Trajectory = (\<lambda>od. od),
      steady_clock_now = (\<lambda>sid n j. (int n + 1) * 1000000 * int j),
      pause_button_reads = (\<lambda>sid n. if n = 1 then [True, True, False] else [False]),
      transform_trajectory_frame = (\<lambda>sid t. t),
      sequence_name = (\<lambda>sid. if sid = 0 then ''00'' else ''01''),
      SavePosesKITTIFormat = (\<lambda>path ps. True),
      SaveTrajectoryFrame = (\<lambda>path ts. True),
      has_ground_truth = (\<lambda>sid. sid = 0),
      load_ground_truth = (\<lambda>sid. [1, 2, 3, 4]),
      eval = demo_eval,
      default_pose = 0\<rparr>"

text \<open>
  The same dataset with sequence \<open>1\<close> (three frames) listed before sequence \<open>0\<close> and
  ground truth for both.
\<close>

definition demo_env2 :: "(nat, nat list, nat, nat) env" where
  "demo_env2 =
     demo_env\<lparr>get_sequences := [\<lparr>sequence_id = 1, info_sequence_name = ''01''\<rparr>,
                                 \<lparr>sequence_id = 0, info_sequence_name = ''00''\<rparr>],
              get_dataset_sequence := (\<lambda>sid. if sid = 0 then [1, 2, 0, 4] else [5, 6, 7]),
              has_ground_truth := (\<lambda>sid. True)\<rparr>"

text \<open>
  The first dataset with a pause that is never lifted: after the second frame of a
  sequence the button is found set by every call.
\<close>

definition demo_env_paused :: "(nat, nat list, nat, nat) env" where
  "demo_env_paused =
     demo_env\<lparr>pause_button_reads := (\<lambda>sid n. if n = 1 then [True, True] else [False])\<rparr>"

text \<open>The second dataset with one name, \<open>00\<close>, for both sequences.\<close>

definition demo_env_same_name :: "(nat, nat list, nat, nat) env" where
  "demo_env_same_name = demo_env2\<lparr>sequence_name := (\<lambda>sid. ''00'')\<rparr>"

section \<open>Basic facts\<close>

lemma register_vars_simps:
  "fst (register_vars e sid f v) = fst (RegisterFrame e (odometry v) f)"
  "odometry (snd (register_vars e sid f v)) = snd (RegisterFrame e (odometry v) f)"
  "frame_id (snd (register_vars e sid f v)) = frame_id v"
  "all_seq_num_frames (snd (register_vars e sid f v)) = all_seq_num_frames v"
  "avg_number_of_attempts (snd (register_vars e sid f v)) =
     dadd (avg_number_of_attempts v) (double_of_int (number_of_attempts (fst (RegisterFrame e (odometry v) f))))"
  "registration_elapsed_ms (snd (register_vars e sid f v)) =
     dadd (registration_elapsed_ms v) (frame_ms e sid (frame_id v))"
  "all_seq_registration_elapsed_ms (snd (register_vars e sid f v)) =
     dadd (all_seq_registration_elapsed_ms v) (frame_ms e sid (frame_id v))"
  "sequence_name_to_errors (snd (register_vars e sid f v)) = sequence_name_to_errors v"
  "dataset_with_gt (snd (register_vars e sid f v)) = dataset_with_gt v"
  "average_rpe_on_seq (snd (register_vars e sid f v)) = average_rpe_on_seq v"
  "nb_seq_with_gt (snd (register_vars e sid f v)) = nb_seq_with_gt v"
  by (simp_all add: register_vars_def frame_ms_def Let_def)

lemma count_frame_simps:
  "frame_id (count_frame v) = Suc (frame_id v)"
  "all_seq_num_frames (count_frame v) = Suc (all_seq_num_frames v)"
  "odometry (count_frame v) = odometry v"
  "avg_number_of_attempts (count_frame v) = avg_number_of_attempts v"
  "registration_elapsed_ms (count_frame v) = registration_elapsed_ms v"
  "all_seq_registration_elapsed_ms (count_frame v) = all_seq_registration_elapsed_ms v"
  "sequence_name_to_errors (count_frame v) = sequence_name_to_errors v"
  "dataset_with_gt (count_frame v) = dataset_with_gt v"
  "average_rpe_on_seq (count_frame v) = average_rpe_on_seq v"
  "nb_seq_with_gt (count_frame v) = nb_seq_with_gt v"
  by (simp_all add: count_frame_def)

lemma poll_pause_Some: "False \<in> set bs \<Longrightarrow> \<exists>es. poll_pause bs = Some (es :: ('f, 't, 'p) event list)"
proof (induction bs)
  case Nil
  then show ?case by simp
next
  case (Cons b bs)
  show ?case
  proof (cases b)
    case True
    with Cons.prems have "False \<in> set bs" by simp
    then obtain es :: "('f, 't, 'p) event list" where "poll_pause bs = Some es"
      using Cons.IH by blast
    with True show ?thesis by simp
  next
    case False
    then show ?thesis by simp
  qed
qed

lemma publish_viz_Some:
  "control_surface opts e \<longrightarrow> pauses_end e \<Longrightarrow> \<exists>es. publish_viz opts e sid n = Some es"
proof (cases "control_surface opts e")
  case True
  assume "control_surface opts e \<longrightarrow> pauses_end e"
  with True have "False \<in> set (pause_button_reads e sid n)"
    by (simp add: pauses_end_def)
  then obtain es :: "('a, 'c, 'd) event list" where "poll_pause (pause_button_reads e sid n) = Some es"
    using poll_pause_Some by blast
  with True show ?thesis
    by (simp add: publish_viz_def control_surface_def)
next
  case False
  then show ?thesis by (auto simp add: publish_viz_def control_surface_def)
qed

lemma frame_loop_Cons:
  "frame_loop opts e sid (f # fs) v =
     (if max_frames opts < 0 \<or> int (frame_id v) < max_frames opts then
        (case publish_viz opts e sid (frame_id v) of
           None \<Rightarrow> None
         | Some viz \<Rightarrow>
             if \<not> success (fst (RegisterFrame e (odometry v) f)) then
               (if suspend_on_failure opts
                then Some (NextUnfilteredFrame f # RegisterFrameCall f # viz
                           @ SlamError sid (frame_id v) (error_message (fst (RegisterFrame e (odometry v) f)))
                           # join_gui opts e, Exited 1)
                else Some (NextUnfilteredFrame f # RegisterFrameCall f # viz
                           @ [SlamError sid (frame_id v) (error_message (fst (RegisterFrame e (odometry v) f)))],
                           Normal (snd (register_vars e sid f v))))
             else
               (case frame_loop opts e sid fs (count_frame (snd (register_vars e sid f v))) of
                  None \<Rightarrow> None
                | Some (es', r) \<Rightarrow> Some (NextUnfilteredFrame f # RegisterFrameCall f # viz @ es', r)))
      else Some ([], Normal v))"
proof -
  obtain s v1 where rv: "register_vars e sid f v = (s, v1)" by (cases "register_vars e sid f v")
  have "s = fst (RegisterFrame e (odometry v) f)" "frame_id v1 = frame_id v"
    using rv register_vars_simps(1,3)[of e sid f v] by simp_all
  then show ?thesis
    by (simp add: register_frame_def rv split: option.splits)
qed

text \<open>The four ways an iteration of the frame loop can go.\<close>

lemma frame_loop_Cons_cases:
  assumes "frame_loop opts e sid (f # fs) v = Some (es, r)"
  obtains
    (stop) "\<not> (max_frames opts < 0 \<or> int (frame_id v) < max_frames opts)" "es = []" "r = Normal v"
  | (fail_exit) viz where
      "max_frames opts < 0 \<or> int (frame_id v) < max_frames opts"
      "publish_viz opts e sid (frame_id v) = Some viz"
      "\<not> success (fst (RegisterFrame e (odometry v) f))" "suspend_on_failure opts"
      "es = NextUnfilteredFrame f # RegisterFrameCall f # viz
            @ SlamError sid (frame_id v) (error_message (fst (RegisterFrame e (odometry v) f)))
            # join_gui opts e"
      "r = Exited 1"
  | (fail_break) viz where
      "max_frames opts < 0 \<or> int (frame_id v) < max_frames opts"
      "publish_viz opts e sid (frame_id v) = Some viz"
      "\<not> success (fst (RegisterFrame e (odometry v) f))" "\<not> suspend_on_failure opts"
      "es = NextUnfilteredFrame f # RegisterFrameCall f # viz
            @ [SlamError sid (frame_id v) (error_message (fst (RegisterFrame e (odometry v) f)))]"
      "r = Normal (snd (register_vars e sid f v))"
  | (continue) viz es' where
      "max_frames opts < 0 \<or> int (frame_id v) < max_frames opts"
      "publish_viz opts e sid (frame_id v) = Some viz"
      "success (fst (RegisterFrame e (odometry v) f))"
      "frame_loop opts e sid fs (count_frame (snd (register_vars e sid f v))) = Some (es', r)"
      "es = NextUnfilteredFrame f # RegisterFrameCall f # viz @ es'"
  using assms that unfolding frame_loop_Cons
  by (auto split: if_splits option.splits)

lemma frame_loop_Some:
  "control_surface opts e \<longrightarrow> pauses_end e \<Longrightarrow> \<exists>es r. frame_loop opts e sid fs v = Some (es, r)"
proof (induction fs arbitrary: v)
  case Nil
  then show ?case by simp
next
  case (Cons f fs)
  obtain viz where viz: "publish_viz opts e sid (frame_id v) = Some viz"
    using publish_viz_Some[OF Cons.prems] by blast
  obtain s v1 where r: "register_vars e sid f v = (s, v1)" by (cases "register_vars e sid f v")
  obtain es r where "frame_loop opts e sid fs (count_frame v1) = Some (es, r)"
    using Cons.IH[OF Cons.prems] by blast
  with viz r show ?case
    by (simp add: register_frame_def)
qed


lemma registered_append: "registered (xs @ ys) = registered xs @ registered ys"
  by (induction xs rule: registered.induct) simp_all

lemma acquired_append: "acquired (xs @ ys) = acquired xs @ acquired ys"
  by (induction xs rule: acquired.induct) simp_all

lemma reported_append: "reported (xs @ ys) = reported xs @ reported ys"
  by (induction xs rule: reported.induct) simp_all

lemma saved_metrics_append: "saved_metrics (xs @ ys) = saved_metrics xs @ saved_metrics ys"
  by (induction xs rule: saved_metrics.induct) simp_all

lemma poll_pause_quiet:
  "poll_pause bs = Some es \<Longrightarrow>
     registered es = [] \<and> acquired es = [] \<and> reported es = [] \<and> saved_metrics es = []"
  by (induction bs arbitrary: es) (auto split: if_splits option.splits)

lemma publish_viz_quiet:
  assumes "publish_viz opts e sid n = Some es"
  shows "registered es = []" "acquired es = []" "reported es = []" "saved_metrics es = []"
proof -
  have "registered es = [] \<and> acquired es = [] \<and> reported es = [] \<and> saved_metrics es = []"
  proof (cases "CT_ICP_WITH_VIZ e \<and> with_viz3d opts")
    case True
    with assms obtain polls where p: "poll_pause (pause_button_reads e sid n) = Some polls"
      and es: "es = [SetCameraPose, AddModel (- 11)]
                 @ (if viz_mode opts = AGGREGATED then [AddModel (int (n mod 500))] else []) @ polls"
      by (auto simp: publish_viz_def split: option.splits)
    from poll_pause_quiet[OF p] es show ?thesis
      by (simp add: registered_append acquired_append reported_append saved_metrics_append)
  next
    case False
    with assms show ?thesis by (auto simp: publish_viz_def)
  qed
  then show "registered es = []" "acquired es = []" "reported es = []" "saved_metrics es = []"
    by simp_all
qed

lemma join_gui_quiet:
  "registered (join_gui opts e) = []" "acquired (join_gui opts e) = []"
  "reported (join_gui opts e) = []" "saved_metrics (join_gui opts e) = []"
  by (simp_all add: join_gui_def)

lemma frame_loop_failure:
  assumes "k < length fs"
    and "\<forall>i<k. success (summaries e (odometry v) fs ! i)"
    and "\<not> success (summaries e (odometry v) fs ! k)"
    and "below_cap opts (frame_id v + k)"
    and "control_surface opts e \<longrightarrow> pauses_end e"
  shows "\<exists>es. frame_loop opts e sid fs v =
           Some (es @ SlamError sid (frame_id v + k) (error_message (summaries e (odometry v) fs ! k))
                    # (if suspend_on_failure opts then join_gui opts e else []),
                 if suspend_on_failure opts then Exited 1
                 else Normal (snd (register_vars e sid (fs ! k) (vars_after e sid v (take k fs)))))
         \<and> registered es = take (Suc k) fs \<and> acquired es = take (Suc k) fs
         \<and> reported es = [] \<and> saved_metrics es = []"
  using assms
proof (induction fs arbitrary: v k)
  case Nil
  then show ?case by simp
next
  case (Cons f fs)
  obtain viz where viz: "publish_viz opts e sid (frame_id v) = Some viz"
    using publish_viz_Some[OF Cons.prems(5)] by blast
  note q = publish_viz_quiet[OF viz]
  show ?case
  proof (cases k)
    case 0
    with Cons.prems have fail: "\<not> success (fst (RegisterFrame e (odometry v) f))"
      and cap: "max_frames opts < 0 \<or> int (frame_id v) < max_frames opts"
      by (simp_all add: below_cap_def)
    show ?thesis
      apply (rule exI[of _ "NextUnfilteredFrame f # RegisterFrameCall f # viz"])
      using 0 fail cap viz q by (simp add: frame_loop_Cons del: frame_loop.simps)
  next
    case (Suc k')
    let ?v = "count_frame (snd (register_vars e sid f v))"
    from Suc Cons.prems have ok: "success (fst (RegisterFrame e (odometry v) f))"
      by auto
    have cap: "max_frames opts < 0 \<or> int (frame_id v) < max_frames opts"
      using Cons.prems(4) by (auto simp: below_cap_def)
    have od: "odometry ?v = snd (RegisterFrame e (odometry v) f)"
      and fid: "frame_id ?v = Suc (frame_id v)"
      by (simp_all add: count_frame_simps register_vars_simps)
    have "\<exists>es. frame_loop opts e sid fs ?v =
           Some (es @ SlamError sid (frame_id ?v + k') (error_message (summaries e (odometry ?v) fs ! k'))
                    # (if suspend_on_failure opts then join_gui opts e else []),
                 if suspend_on_failure opts then Exited 1
                 else Normal (snd (register_vars e sid (fs ! k') (vars_after e sid ?v (take k' fs)))))
         \<and> registered es = take (Suc k') fs \<and> acquired es = take (Suc k') fs
         \<and> reported es = [] \<and> saved_metrics es = []"
    proof (rule Cons.IH)
      show "k' < length fs" using Suc Cons.prems(1) by simp
      show "\<forall>i<k'. success (summaries e (odometry ?v) fs ! i)"
        using Suc Cons.prems(2) od by auto
      show "\<not> success (summaries e (odometry ?v) fs ! k')"
        using Suc Cons.prems(3) od by simp
      show "below_cap opts (frame_id ?v + k')"
        using Suc Cons.prems(4) fid by simp
      show "control_surface opts e \<longrightarrow> pauses_end e" by (rule Cons.prems(5))
    qed
    then obtain es where es: "frame_loop opts e sid fs ?v =
           Some (es @ SlamError sid (frame_id ?v + k') (error_message (summaries e (odometry ?v) fs ! k'))
                    # (if suspend_on_failure opts then join_gui opts e else []),
                 if suspend_on_failure opts then Exited 1
                 else Normal (snd (register_vars e sid (fs ! k') (vars_after e sid ?v (take k' fs)))))"
      and tr: "registered es = take (Suc k') fs" "acquired es = take (Suc k') fs"
         "reported es = []" "saved_metrics es = []"
      by blast
    show ?thesis
      apply (rule exI[of _ "NextUnfilteredFrame f # RegisterFrameCall f # viz @ es"])
      using Suc ok cap viz q es tr od fid
      by (simp add: frame_loop_Cons registered_append acquired_append reported_append
            saved_metrics_append del: frame_loop.simps)
  qed
qed


lemma length_summaries: "length (summaries e od fs) = length fs"
  by (induction fs arbitrary: od) simp_all

lemma summaries_append:
  "summaries e od (xs @ ys) = summaries e od xs @ summaries e (odometry_after e od xs) ys"
  by (induction xs arbitrary: od) simp_all

lemma odometry_after_append:
  "odometry_after e od (xs @ ys) = odometry_after e (odometry_after e od xs) ys"
  by (induction xs arbitrary: od) simp_all

lemma summaries_take: "summaries e od (take n fs) = take n (summaries e od fs)"
proof (induction fs arbitrary: od n)
  case Nil
  then show ?case by simp
next
  case (Cons f fs)
  then show ?case by (cases n) simp_all
qed

lemma vars_after_fields:
  "frame_id (vars_after e sid v fs) = frame_id v + length fs"
  "all_seq_num_frames (vars_after e sid v fs) = all_seq_num_frames v + length fs"
  "odometry (vars_after e sid v fs) = odometry_after e (odometry v) fs"
  "avg_number_of_attempts (vars_after e sid v fs) =
     foldl dadd (avg_number_of_attempts v)
       (map (\<lambda>s. double_of_int (number_of_attempts s)) (summaries e (odometry v) fs))"
  "registration_elapsed_ms (vars_after e sid v fs) =
     foldl dadd (registration_elapsed_ms v) (map (frame_ms e sid) [frame_id v..<frame_id v + length fs])"
  "all_seq_registration_elapsed_ms (vars_after e sid v fs) =
     foldl dadd (all_seq_registration_elapsed_ms v)
       (map (frame_ms e sid) [frame_id v..<frame_id v + length fs])"
  "sequence_name_to_errors (vars_after e sid v fs) = sequence_name_to_errors v"
  "dataset_with_gt (vars_after e sid v fs) = dataset_with_gt v"
  "average_rpe_on_seq (vars_after e sid v fs) = average_rpe_on_seq v"
  "nb_seq_with_gt (vars_after e sid v fs) = nb_seq_with_gt v"
  by (induction fs arbitrary: v;
      simp add: count_frame_simps register_vars_simps upt_conv_Cons del: upt_Suc)+

lemma failed_vars_fields:
  fixes e :: "('f, 'o, 't, 'p) env" and sid v fs k
  assumes "k < length fs"
  defines "v' \<equiv> snd (register_vars e sid (fs ! k) (vars_after e sid v (take k fs)))"
  shows "frame_id v' = frame_id v + k"
    and "all_seq_num_frames v' = all_seq_num_frames v + k"
    and "odometry v' = odometry_after e (odometry v) (take (Suc k) fs)"
    and "avg_number_of_attempts v' =
          foldl dadd (avg_number_of_attempts v)
            (map (\<lambda>s. double_of_int (number_of_attempts s)) (take (Suc k) (summaries e (odometry v) fs)))"
    and "registration_elapsed_ms v' =
          foldl dadd (registration_elapsed_ms v) (map (frame_ms e sid) [frame_id v..<frame_id v + Suc k])"
    and "all_seq_registration_elapsed_ms v' =
          foldl dadd (all_seq_registration_elapsed_ms v)
            (map (frame_ms e sid) [frame_id v..<frame_id v + Suc k])"
    and "sequence_name_to_errors v' = sequence_name_to_errors v"
    and "dataset_with_gt v' = dataset_with_gt v"
    and "average_rpe_on_seq v' = average_rpe_on_seq v"
    and "nb_seq_with_gt v' = nb_seq_with_gt v"
proof -
  have len: "length (take k fs) = k" using assms(1) by simp
  have split: "take (Suc k) fs = take k fs @ [fs ! k]"
    using assms(1) by (simp add: take_Suc_conv_app_nth)
  show "frame_id v' = frame_id v + k" "all_seq_num_frames v' = all_seq_num_frames v + k"
    "sequence_name_to_errors v' = sequence_name_to_errors v" "dataset_with_gt v' = dataset_with_gt v"
    "average_rpe_on_seq v' = average_rpe_on_seq v" "nb_seq_with_gt v' = nb_seq_with_gt v"
    using assms(1) by (simp_all add: v'_def register_vars_simps vars_after_fields)
  show "odometry v' = odometry_after e (odometry v) (take (Suc k) fs)"
    by (simp add: v'_def register_vars_simps vars_after_fields split odometry_after_append)
  show "avg_number_of_attempts v' =
          foldl dadd (avg_number_of_attempts v)
            (map (\<lambda>s. double_of_int (number_of_attempts s)) (take (Suc k) (summaries e (odometry v) fs)))"
    unfolding summaries_take[symmetric]
    by (simp add: v'_def register_vars_simps vars_after_fields split summaries_append)
  show "registration_elapsed_ms v' =
          foldl dadd (registration_elapsed_ms v) (map (frame_ms e sid) [frame_id v..<frame_id v + Suc k])"
    using assms(1) by (simp add: v'_def register_vars_simps vars_after_fields)
  show "all_seq_registration_elapsed_ms v' =
          foldl dadd (all_seq_registration_elapsed_ms v)
            (map (frame_ms e sid) [frame_id v..<frame_id v + Suc k])"
    using assms(1) by (simp add: v'_def register_vars_simps vars_after_fields)
qed


lemma map_of_map_assign: "map_of (map_assign k v m) k = Some v"
  by (induction m) auto

lemma save_poses_continues:
  "\<not> suspend_on_failure opts \<Longrightarrow> snd (save_poses opts e name tr ps) = Normal ()"
  by (simp add: save_poses_def Let_def)

lemma finish_sequence_evaluated:
  fixes e :: "('f, 'o, 't, 'p) env" and sid and v :: "'o main_vars" and opts
  assumes "\<not> suspend_on_failure opts" and "has_ground_truth e sid"
  defines "name \<equiv> sequence_name e sid"
    and "poses \<equiv> transform_trajectory_frame e sid (Trajectory e (odometry v))"
    and "se \<equiv> (snd (evaluate_poses e sid (transform_trajectory_frame e sid (Trajectory e (odometry v)))))
                \<lparr>average_elapsed_ms := ddiv (registration_elapsed_ms v) (double_of_nat (frame_id v)),
                 mean_num_attempts := ddiv (avg_number_of_attempts v) (double_of_nat (frame_id v))\<rparr>"
  shows "finish_sequence opts e sid v =
     (fst (save_poses opts e (sequence_name e sid) (Trajectory e (odometry v)) poses)
        @ [Results name (fst (evaluate_poses e sid poses)) se (mean_num_attempts se) (average_elapsed_ms se),
           SaveMetricsCall (map_assign name se (sequence_name_to_errors v))
              (output_dir opts @ ''metrics.yaml'') (fst (evaluate_poses e sid poses))],
      Normal (v\<lparr>avg_number_of_attempts := ddiv (avg_number_of_attempts v) (double_of_nat (frame_id v)),
                dataset_with_gt := True,
                nb_seq_with_gt := nb_seq_with_gt v + 1,
                average_rpe_on_seq := dadd (average_rpe_on_seq v) (mean_rpe se),
                sequence_name_to_errors := map_assign name se (sequence_name_to_errors v)\<rparr>))"
proof -
  obtain saves where sp: "save_poses opts e (sequence_name e sid) (Trajectory e (odometry v)) poses = (saves, Normal ())"
    using save_poses_continues[OF assms(1)] by (metis prod.collapse)
  show ?thesis
    using assms(2) sp
    by (simp add: finish_sequence_def average_attempts_def evaluate_def Let_def name_def poses_def se_def)
qed

lemma list_all_take_nth:
  "k \<le> length xs \<Longrightarrow> list_all P (take k xs) \<longleftrightarrow> (\<forall>i<k. P (xs ! i))"
  by (auto simp: list_all_length)

lemma begin_sequence_simps:
  "frame_id (begin_sequence e g) = 0"
  "odometry (begin_sequence e g) = new_Odometry e"
  "avg_number_of_attempts (begin_sequence e g) = Fin 0"
  "registration_elapsed_ms (begin_sequence e g) = Fin 0"
  "all_seq_num_frames (begin_sequence e g) = all_seq_num_frames g"
  "all_seq_registration_elapsed_ms (begin_sequence e g) = all_seq_registration_elapsed_ms g"
  "sequence_name_to_errors (begin_sequence e g) = sequence_name_to_errors g"
  "dataset_with_gt (begin_sequence e g) = dataset_with_gt g"
  "average_rpe_on_seq (begin_sequence e g) = average_rpe_on_seq g"
  "nb_seq_with_gt (begin_sequence e g) = nb_seq_with_gt g"
  by (simp_all add: begin_sequence_def)

lemma announce_start_quiet:
  "reported (announce_start opts) = []" "registered (announce_start opts) = []"
  "acquired (announce_start opts) = []" "saved_metrics (announce_start opts) = []"
  by (simp_all add: announce_start_def)

lemma save_poses_quiet:
  "reported (fst (save_poses opts e name tr ps)) = []"
  "registered (fst (save_poses opts e name tr ps)) = []"
  "acquired (fst (save_poses opts e name tr ps)) = []"
  "saved_metrics (fst (save_poses opts e name tr ps)) = []"
  by (simp_all add: save_poses_def Let_def join_gui_def)

subsection \<open>The small dataset\<close>

lemma demo_env_simps:
  "CT_ICP_WITH_VIZ demo_env = True"
  "get_sequences demo_env = [\<lparr>sequence_id = 0, info_sequence_name = ''00''\<rparr>,
                       \<lparr>sequence_id = 1, info_sequence_name = ''01''\<rparr>]"
  "get_dataset_sequence demo_env sid = (if sid = 0 then [1, 2, 0, 4] else [5, 6])"
  "new_Odometry demo_env = []"
  "RegisterFrame demo_env od f = (\<lparr>success = (f \<noteq> 0), error_message = ''lost'', number_of_attempts = 2\<rparr>,
                                if f \<noteq> 0 then od @ [f] else od)"
  "Trajectory demo_env od = od"
  "steady_clock_now demo_env sid n j = (int n + 1) * 1000000 * int j"
  "pause_button_reads demo_env sid n = (if n = 1 then [True, True, False] else [False])"
  "transform_trajectory_frame demo_env sid t = t"
  "sequence_name demo_env sid = (if sid = 0 then ''00'' else ''01'')"
  "SavePosesKITTIFormat demo_env path ps = True"
  "SaveTrajectoryFrame demo_env path ts = True"
  "has_ground_truth demo_env sid = (sid = 0)"
  "load_ground_truth demo_env sid = [1, 2, 3, 4]"
  "eval demo_env = demo_eval"
  "default_pose demo_env = 0"
  by (simp_all add: demo_env_def)

lemma default_SLAMOptions_simps:
  "suspend_on_failure default_SLAMOptions = False"
  "save_trajectory default_SLAMOptions = True"
  "output_dir default_SLAMOptions = ''./outputs''"
  "all_sequences default_SLAMOptions = True"
  "start_index default_SLAMOptions = 0"
  "max_frames default_SLAMOptions = - 1"
  "with_viz3d default_SLAMOptions = True"
  "viz_mode default_SLAMOptions = KEYPOINTS"
  by (simp_all add: default_SLAMOptions_def)

lemma demo_pauses_end: "pauses_end demo_env"
  by (simp add: pauses_end_def demo_env_simps)

lemma demo_frame_ms: "frame_ms demo_env sid n = Fin (real n + 1)"
  by (simp add: frame_ms_def elapsed_ms_def double_of_int_def demo_env_simps)

subsection \<open>After the frame loop\<close>


lemma save_poses_flow:
  "snd (save_poses opts e name tr ps) = Normal () \<or>
   (snd (save_poses opts e name tr ps) = Exited 1 \<and> suspend_on_failure opts \<and> save_trajectory opts
     \<and> \<not> (SavePosesKITTIFormat e (output_dir opts @ name @ ''_poses.txt'') ps
           \<and> SaveTrajectoryFrame e (output_dir opts @ name @ ''_dual_poses.txt'') tr))"
  by (simp add: save_poses_def Let_def)

lemma finish_sequence_flow:
  fixes e :: "('f, 'o, 't, 'p) env" and sid and v :: "'o main_vars" and opts
  defines "poses \<equiv> transform_trajectory_frame e sid (Trajectory e (odometry v))"
  defines "saves \<equiv> save_poses opts e (sequence_name e sid) (Trajectory e (odometry v)) poses"
  shows "finish_sequence opts e sid v =
     (case snd saves of
        Exited c \<Rightarrow> (fst saves, Exited c)
      | Normal _ \<Rightarrow>
          (fst saves @ fst (evaluate opts e sid (sequence_name e sid) poses (average_attempts v)),
           Normal (snd (evaluate opts e sid (sequence_name e sid) poses (average_attempts v)))))"
  by (simp add: finish_sequence_def Let_def poses_def saves_def average_attempts_def
        split: prod.splits flow.splits)

text \<open>The definitions to unfold when the driver is run on given data.\<close>

lemmas run_defs = run_sequence_def announce_start_def sequence_frames_def begin_sequence_def register_frame_def
  register_vars_def publish_viz_def join_gui_def elapsed_ms_def count_frame_def
  finish_sequence_def average_attempts_def save_poses_def evaluate_def evaluate_poses_def
  resize_def double_of_int_def double_of_nat_def Let_def

subsection \<open>The pause gate and the runs that return\<close>

lemma gate_protocol_append:
  "gate_protocol s (xs @ ys) =
     (case gate_protocol s xs of None \<Rightarrow> None | Some s' \<Rightarrow> gate_protocol s' ys)"
  by (induction xs arbitrary: s) (simp_all split: option.splits)

text \<open>Events that neither touch the gate nor register a frame.\<close>

lemma gate_protocol_neutral:
  "list_all (\<lambda>ev. gate_step Running ev = Some Running) es \<Longrightarrow> gate_protocol Running es = Some Running"
  by (induction es) simp_all

lemma poll_pause_protocol:
  "poll_pause bs = Some es \<Longrightarrow>
     gate_protocol AwaitingGate es = Some Running \<and> gate_protocol Sleeping es = Some Running"
  by (induction bs arbitrary: es) (auto split: if_splits option.splits)

lemma publish_viz_protocol:
  assumes "control_surface opts e" and "publish_viz opts e sid n = Some viz"
  shows "gate_protocol AwaitingGate viz = Some Running"
proof -
  from assms obtain polls where p: "poll_pause (pause_button_reads e sid n) = Some polls"
    and es: "viz = [SetCameraPose, AddModel (- 11)]
               @ (if viz_mode opts = AGGREGATED then [AddModel (int (n mod 500))] else []) @ polls"
    by (auto simp: publish_viz_def control_surface_def split: option.splits)
  from poll_pause_protocol[OF p] show ?thesis by (simp add: es)
qed

lemma publish_viz_absent:
  "\<not> control_surface opts e \<Longrightarrow> publish_viz opts e sid n = Some []"
  by (auto simp: publish_viz_def control_surface_def)

lemma join_gui_neutral:
  "gate_protocol Running (join_gui opts e) = Some Running"
  "filter is_gate_event (join_gui opts e) = []"
  by (simp_all add: join_gui_def)

lemma frame_loop_protocol:
  assumes "control_surface opts e" and "frame_loop opts e sid fs v = Some (es, r)"
  shows "gate_protocol Running es = Some Running"
  using assms(2)
proof (induction fs arbitrary: v es r)
  case Nil
  then show ?case by auto
next
  case (Cons f fs)
  from Cons.prems show ?case
  proof (cases rule: frame_loop_Cons_cases)
    case stop
    then show ?thesis by simp
  next
    case (fail_exit viz)
    from publish_viz_protocol[OF assms(1) fail_exit(2)] show ?thesis
      by (simp add: fail_exit(5) gate_protocol_append join_gui_neutral)
  next
    case (fail_break viz)
    from publish_viz_protocol[OF assms(1) fail_break(2)] show ?thesis
      by (simp add: fail_break(5) gate_protocol_append)
  next
    case (continue viz es')
    from publish_viz_protocol[OF assms(1) continue(2)] Cons.IH[OF continue(4)] show ?thesis
      by (simp add: continue(5) gate_protocol_append)
  qed
qed

lemma frame_loop_no_gate:
  assumes "\<not> control_surface opts e" and "frame_loop opts e sid fs v = Some (es, r)"
  shows "filter is_gate_event es = []"
  using assms(2)
proof (induction fs arbitrary: v es r)
  case Nil
  then show ?case by auto
next
  case (Cons f fs)
  from Cons.prems show ?case
  proof (cases rule: frame_loop_Cons_cases)
    case stop
    then show ?thesis by simp
  next
    case (fail_exit viz)
    with publish_viz_absent[OF assms(1), of sid "frame_id v"] show ?thesis
      by (simp add: join_gui_neutral)
  next
    case (fail_break viz)
    with publish_viz_absent[OF assms(1), of sid "frame_id v"] show ?thesis
      by simp
  next
    case (continue viz es')
    with publish_viz_absent[OF assms(1), of sid "frame_id v"] Cons.IH[OF continue(4)] show ?thesis
      by simp
  qed
qed

lemma finish_sequence_neutral:
  "gate_protocol Running (fst (finish_sequence opts e sid v)) = Some Running"
  "filter is_gate_event (fst (finish_sequence opts e sid v)) = []"
  by (simp_all add: finish_sequence_def save_poses_def evaluate_def Let_def join_gui_def
        gate_protocol_append split: prod.splits flow.splits)


lemma run_sequence_cases:
  assumes "run_sequence opts e sid g = Some (es, r)"
  obtains
    (exited) es0 c where
      "frame_loop opts e sid (sequence_frames opts e sid) (begin_sequence e g) = Some (es0, Exited c)"
      "es = announce_start opts @ es0" "r = Exited c"
  | (finished) es0 v where
      "frame_loop opts e sid (sequence_frames opts e sid) (begin_sequence e g) = Some (es0, Normal v)"
      "es = announce_start opts @ es0 @ fst (finish_sequence opts e sid v)"
      "r = snd (finish_sequence opts e sid v)"
  using assms unfolding run_sequence_def
  by (auto split: option.splits flow.splits prod.splits)

lemma run_sequences_Cons_cases:
  assumes "run_sequences opts e (s # later) g = Some (es, r)"
  obtains
    (exited) c where "run_sequence opts e (sequence_id s) g = Some (es, Exited c)" "r = Exited c"
  | (continue) es1 g' es2 where
      "run_sequence opts e (sequence_id s) g = Some (es1, Normal g')"
      "run_sequences opts e later g' = Some (es2, r)" "es = es1 @ es2"
  using assms by (auto split: option.splits flow.splits prod.splits)

lemma announce_start_neutral:
  "gate_protocol Running (announce_start opts) = Some Running"
  "filter is_gate_event (announce_start opts) = []"
  by (simp_all add: announce_start_def)

lemma run_sequence_protocol:
  assumes "run_sequence opts e sid g = Some (es, r)"
  shows "control_surface opts e \<Longrightarrow> gate_protocol Running es = Some Running"
    and "\<not> control_surface opts e \<Longrightarrow> filter is_gate_event es = []"
proof -
  show "gate_protocol Running es = Some Running" if c: "control_surface opts e"
    using assms
  proof (cases rule: run_sequence_cases)
    case (exited es0 c)
    with frame_loop_protocol[OF c exited(1)] show ?thesis
      by (simp add: gate_protocol_append announce_start_neutral)
  next
    case (finished es0 v)
    with frame_loop_protocol[OF c finished(1)] show ?thesis
      by (simp add: gate_protocol_append announce_start_neutral finish_sequence_neutral)
  qed
  show "filter is_gate_event es = []" if c: "\<not> control_surface opts e"
    using assms
  proof (cases rule: run_sequence_cases)
    case (exited es0 c)
    with frame_loop_no_gate[OF c exited(1)] show ?thesis
      by (simp add: announce_start_neutral)
  next
    case (finished es0 v)
    with frame_loop_no_gate[OF c finished(1)] show ?thesis
      by (simp add: announce_start_neutral finish_sequence_neutral)
  qed
qed

lemma run_sequences_protocol:
  assumes "run_sequences opts e seqs g = Some (es, r)"
  shows "control_surface opts e \<Longrightarrow> gate_protocol Running es = Some Running"
    and "\<not> control_surface opts e \<Longrightarrow> filter is_gate_event es = []"
  using assms
proof (induction seqs arbitrary: g es r)
  case Nil
  { case 1 then show ?case by auto }
  { case 2 then show ?case by auto }
next
  case (Cons s later)
  { case 1
    from 1(2) show ?case
    proof (cases rule: run_sequences_Cons_cases)
      case (exited c)
      then show ?thesis using run_sequence_protocol(1)[OF exited(1) 1(1)] by simp
    next
      case (continue es1 g' es2)
      then show ?thesis
        using run_sequence_protocol(1)[OF continue(1) 1(1)] Cons.IH(1)[OF 1(1) continue(2)]
        by (simp add: gate_protocol_append)
    qed }
  { case 2
    from 2(2) show ?case
    proof (cases rule: run_sequences_Cons_cases)
      case (exited c)
      then show ?thesis using run_sequence_protocol(2)[OF exited(1) 2(1)] by simp
    next
      case (continue es1 g' es2)
      then show ?thesis
        using run_sequence_protocol(2)[OF continue(1) 2(1)] Cons.IH(2)[OF 2(1) continue(2)]
        by simp
    qed }
qed

lemma run_sequence_Some:
  assumes "control_surface opts e \<longrightarrow> pauses_end e"
  shows "\<exists>es r. run_sequence opts e sid g = Some (es, r)"
proof -
  obtain es0 r0 where "frame_loop opts e sid (sequence_frames opts e sid) (begin_sequence e g) = Some (es0, r0)"
    using frame_loop_Some[OF assms] by blast
  then show ?thesis
    by (cases r0) (auto simp: run_sequence_def split: prod.splits)
qed

lemma run_sequences_Some:
  assumes "control_surface opts e \<longrightarrow> pauses_end e"
  shows "\<exists>es r. run_sequences opts e seqs g = Some (es, r)"
proof (induction seqs arbitrary: g)
  case Nil
  then show ?case by simp
next
  case (Cons s later)
  obtain es1 r1 where 1: "run_sequence opts e (sequence_id s) g = Some (es1, r1)"
    using run_sequence_Some[OF assms] by blast
  show ?case
  proof (cases r1)
    case (Exited c)
    with 1 show ?thesis by simp
  next
    case (Normal g')
    obtain es2 r2 where "run_sequences opts e later g' = Some (es2, r2)"
      using Cons.IH by blast
    with 1 Normal show ?thesis by simp
  qed
qed

lemma main_Some:
  assumes "control_surface opts e \<longrightarrow> pauses_end e"
  shows "\<exists>es c. main opts e = Some (es, c)"
proof (cases "select_sequences opts (get_sequences e)")
  case None
  then show ?thesis by (simp add: main_def)
next
  case (Some seqs)
  obtain es r where "run_sequences opts e seqs (initial_vars e) = Some (es, r)"
    using run_sequences_Some[OF assms] by blast
  with Some show ?thesis by (cases r) (simp_all add: main_def)
qed

lemma final_report_neutral:
  "gate_protocol Running (final_report g) = Some Running"
  "filter is_gate_event (final_report g) = []"
  "gate_protocol Running (launch_gui opts e) = Some Running"
  "filter is_gate_event (launch_gui opts e) = []"
  by (simp_all add: final_report_def launch_gui_def)

lemmas main_defs = main_def select_sequences_def launch_gui_def final_report_def initial_vars_def
  kitti_translation_def kitti_rotation_def all_seq_sums_def add_tab_errors_def M_PI_def

subsection \<open>Sequences in a row, and the trajectory of the engine\<close>







lemma length_resize: "length (resize n d xs) = n"
  by (simp add: resize_def)

lemma resize_shorter: "n \<le> length xs \<Longrightarrow> resize n d xs = take n xs"
  by (simp add: resize_def)

subsection \<open>What the sequences leave in the variables of the run\<close>

lemma frame_loop_keeps_globals:
  assumes "frame_loop opts e sid fs v = Some (es, Normal v')"
  shows "odometry v' = odometry_loop opts e (frame_id v) (odometry v) fs \<and>
         sequence_name_to_errors v' = sequence_name_to_errors v \<and>
         dataset_with_gt v' = dataset_with_gt v \<and>
         average_rpe_on_seq v' = average_rpe_on_seq v \<and>
         nb_seq_with_gt v' = nb_seq_with_gt v"
  using assms
proof (induction fs arbitrary: v es)
  case Nil
  then show ?case by auto
next
  case (Cons f fs)
  from Cons.prems show ?case
  proof (cases rule: frame_loop_Cons_cases)
    case stop
    then show ?thesis by simp
  next
    case (fail_exit viz)
    then show ?thesis by simp
  next
    case (fail_break viz)
    then show ?thesis by (simp add: register_vars_simps)
  next
    case (continue viz es')
    from Cons.IH[OF continue(4)] continue(1,3) show ?thesis
      by (simp add: register_vars_simps count_frame_simps)
  qed
qed

lemma frame_loop_saves_no_metrics:
  assumes "frame_loop opts e sid fs v = Some (es, r)"
  shows "saved_metrics es = []"
  using assms
proof (induction fs arbitrary: v es)
  case Nil
  then show ?case by auto
next
  case (Cons f fs)
  from Cons.prems show ?case
  proof (cases rule: frame_loop_Cons_cases)
    case stop
    then show ?thesis by simp
  next
    case (fail_exit viz)
    with publish_viz_quiet(4)[OF fail_exit(2)] show ?thesis
      by (simp add: saved_metrics_append join_gui_quiet)
  next
    case (fail_break viz)
    with publish_viz_quiet(4)[OF fail_break(2)] show ?thesis
      by (simp add: saved_metrics_append)
  next
    case (continue viz es')
    with publish_viz_quiet(4)[OF continue(2)] Cons.IH[OF continue(4)] show ?thesis
      by (simp add: saved_metrics_append)
  qed
qed

lemma frame_loop_exit_code:
  assumes "frame_loop opts e sid fs v = Some (es, Exited c)"
  shows "c = 1 \<and> suspend_on_failure opts"
  using assms
proof (induction fs arbitrary: v es)
  case Nil
  then show ?case by auto
next
  case (Cons f fs)
  from Cons.prems show ?case
  proof (cases rule: frame_loop_Cons_cases)
    case (continue viz es')
    from Cons.IH[OF continue(4)] show ?thesis .
  qed simp_all
qed

text \<open>What a sequence that is run to its end does to the variables of the whole run.\<close>

lemma run_sequence_accumulates:
  assumes "run_sequence opts e sid g = Some (es, Normal g')"
  shows "if has_ground_truth e sid
         then (\<exists>se valid.
                 sequence_name_to_errors g' = map_assign (sequence_name e sid) se (sequence_name_to_errors g) \<and>
                 tab_errors se = tab_errors (sequence_errors opts e sid) \<and>
                 mean_rpe se = mean_rpe (sequence_errors opts e sid) \<and>
                 saved_metrics es = [(sequence_name_to_errors g', valid)]) \<and>
              dataset_with_gt g' \<and> nb_seq_with_gt g' = nb_seq_with_gt g + 1 \<and>
              average_rpe_on_seq g' = dadd (average_rpe_on_seq g) (mean_rpe (sequence_errors opts e sid))
         else sequence_name_to_errors g' = sequence_name_to_errors g \<and> saved_metrics es = [] \<and>
              dataset_with_gt g' = dataset_with_gt g \<and> nb_seq_with_gt g' = nb_seq_with_gt g \<and>
              average_rpe_on_seq g' = average_rpe_on_seq g"
  using assms
proof (cases rule: run_sequence_cases)
  case (finished es0 v)
  note keep = frame_loop_keeps_globals[OF finished(1), unfolded begin_sequence_simps]
  note quiet = frame_loop_saves_no_metrics[OF finished(1)]
  define poses where "poses = transform_trajectory_frame e sid (Trajectory e (odometry v))"
  define saves where "saves = save_poses opts e (sequence_name e sid) (Trajectory e (odometry v)) poses"
  define ev where "ev = evaluate opts e sid (sequence_name e sid) poses (average_attempts v)"
  have est: "poses = estimated_poses opts e sid"
    using keep by (simp add: poses_def estimated_poses_def)
  from finished(3) have go: "snd saves = Normal ()" and g': "g' = snd ev"
    and es: "es = announce_start opts @ es0 @ fst saves @ fst ev"
    using finished(2)
    by (auto simp: finish_sequence_flow split: flow.splits simp flip: poses_def saves_def ev_def)
  have sq: "saved_metrics es = saved_metrics (fst ev)"
    by (simp add: es saved_metrics_append announce_start_quiet quiet saves_def save_poses_quiet)
  show ?thesis
  proof (cases "has_ground_truth e sid")
    case True
    define se where "se = (snd (evaluate_poses e sid poses))
          \<lparr>average_elapsed_ms := ddiv (registration_elapsed_ms v) (double_of_nat (frame_id v)),
           mean_num_attempts := ddiv (avg_number_of_attempts v) (double_of_nat (frame_id v))\<rparr>"
    have "sequence_name_to_errors g' = map_assign (sequence_name e sid) se (sequence_name_to_errors g)"
      and "tab_errors se = tab_errors (sequence_errors opts e sid)"
      and "mean_rpe se = mean_rpe (sequence_errors opts e sid)"
      and "saved_metrics es = [(sequence_name_to_errors g', fst (evaluate_poses e sid poses))]"
      and "dataset_with_gt g'" "nb_seq_with_gt g' = nb_seq_with_gt g + 1"
      and "average_rpe_on_seq g' = dadd (average_rpe_on_seq g) (mean_rpe (sequence_errors opts e sid))"
      using True keep
      by (simp_all add: g' sq ev_def evaluate_def Let_def average_attempts_def se_def
            sequence_errors_def est)
    with True show ?thesis by auto
  next
    case False
    with keep show ?thesis
      by (simp add: g' sq ev_def evaluate_def average_attempts_def)
  qed
qed simp

lemma run_sequence_exit_code:
  assumes "run_sequence opts e sid g = Some (es, Exited c)"
  shows "c = 1"
  using assms
proof (cases rule: run_sequence_cases)
  case (exited es0 c')
  with frame_loop_exit_code[OF exited(1)] show ?thesis by simp
next
  case (finished es0 v)
  then show ?thesis
    using save_poses_flow[of opts e "sequence_name e sid" "Trajectory e (odometry v)"
            "transform_trajectory_frame e sid (Trajectory e (odometry v))"]
    by (auto simp: finish_sequence_flow split: flow.splits)
qed

lemma run_sequences_exit_code:
  assumes "run_sequences opts e seqs g = Some (es, Exited c)"
  shows "c = 1"
  using assms
proof (induction seqs arbitrary: g es)
  case Nil
  then show ?case by simp
next
  case (Cons s later)
  from Cons.prems show ?case
  proof (cases rule: run_sequences_Cons_cases)
    case (exited c')
    with run_sequence_exit_code show ?thesis by blast
  next
    case (continue es1 g' es2)
    with Cons.IH show ?thesis by blast
  qed
qed


lemma ground_truth_ids_simps:
  "ground_truth_ids e [] = []"
  "ground_truth_ids e (s # later) =
     (if has_ground_truth e (sequence_id s) then sequence_id s # ground_truth_ids e later
      else ground_truth_ids e later)"
  by (simp_all add: ground_truth_ids_def)

lemma map_map_assign:
  "map (\<lambda>(k, x). (k, f x)) (map_assign k v m) = map_assign k (f v) (map (\<lambda>(k, x). (k, f x)) m)"
  by (induction m) auto

lemma run_sequences_accumulates:
  assumes "run_sequences opts e seqs g = Some (es, Normal g')"
  shows "average_rpe_on_seq g' =
           foldl dadd (average_rpe_on_seq g)
             (map (\<lambda>sid. mean_rpe (sequence_errors opts e sid)) (ground_truth_ids e seqs)) \<and>
         nb_seq_with_gt g' = nb_seq_with_gt g + length (ground_truth_ids e seqs) \<and>
         dataset_with_gt g' = (dataset_with_gt g \<or> ground_truth_ids e seqs \<noteq> []) \<and>
         map (\<lambda>(k, se). (k, tab_errors se)) (sequence_name_to_errors g') =
           foldl (\<lambda>m sid. map_assign (sequence_name e sid) (tab_errors (sequence_errors opts e sid)) m)
             (map (\<lambda>(k, se). (k, tab_errors se)) (sequence_name_to_errors g))
             (ground_truth_ids e seqs)"
  using assms
proof (induction seqs arbitrary: g es)
  case Nil
  then show ?case by (simp add: ground_truth_ids_simps)
next
  case (Cons s later)
  from Cons.prems show ?case
  proof (cases rule: run_sequences_Cons_cases)
    case (continue es1 g1 es2)
    note one = run_sequence_accumulates[OF continue(1)]
    note rest = Cons.IH[OF continue(2)]
    show ?thesis
    proof (cases "has_ground_truth e (sequence_id s)")
      case True
      with one obtain se where
        "sequence_name_to_errors g1 = map_assign (sequence_name e (sequence_id s)) se (sequence_name_to_errors g)"
        "tab_errors se = tab_errors (sequence_errors opts e (sequence_id s))"
        "dataset_with_gt g1" "nb_seq_with_gt g1 = nb_seq_with_gt g + 1"
        "average_rpe_on_seq g1 = dadd (average_rpe_on_seq g) (mean_rpe (sequence_errors opts e (sequence_id s)))"
        by auto
      with rest True show ?thesis
        by (simp add: ground_truth_ids_simps map_map_assign)
    next
      case False
      with one rest show ?thesis by (simp add: ground_truth_ids_simps)
    qed
  qed simp
qed

lemma summary_append: "summary (xs @ ys) = summary xs @ summary ys"
  by (induction xs rule: summary.induct) simp_all

lemma poll_pause_no_summary: "poll_pause bs = Some es \<Longrightarrow> summary es = []"
  by (induction bs arbitrary: es) (auto split: if_splits option.splits)

lemma publish_viz_no_summary:
  assumes "publish_viz opts e sid n = Some es"
  shows "summary es = []"
proof (cases "CT_ICP_WITH_VIZ e \<and> with_viz3d opts")
  case True
  with assms obtain polls where p: "poll_pause (pause_button_reads e sid n) = Some polls"
    and es: "es = [SetCameraPose, AddModel (- 11)]
               @ (if viz_mode opts = AGGREGATED then [AddModel (int (n mod 500))] else []) @ polls"
    by (auto simp: publish_viz_def split: option.splits)
  from poll_pause_no_summary[OF p] es show ?thesis by (simp add: summary_append)
next
  case False
  with assms show ?thesis by (auto simp: publish_viz_def)
qed

lemma no_summary_outside:
  "summary (join_gui opts e) = []" "summary (launch_gui opts e) = []"
  "summary (announce_start opts) = []" "summary (fst (finish_sequence opts e sid v)) = []"
  by (simp_all add: join_gui_def launch_gui_def announce_start_def finish_sequence_def
        save_poses_def evaluate_def Let_def summary_append split: prod.splits flow.splits)

lemma frame_loop_no_summary:
  assumes "frame_loop opts e sid fs v = Some (es, r)"
  shows "summary es = []"
  using assms
proof (induction fs arbitrary: v es)
  case Nil
  then show ?case by auto
next
  case (Cons f fs)
  from Cons.prems show ?case
  proof (cases rule: frame_loop_Cons_cases)
    case stop
    then show ?thesis by simp
  next
    case (fail_exit viz)
    with publish_viz_no_summary[OF fail_exit(2)] show ?thesis
      by (simp add: summary_append no_summary_outside)
  next
    case (fail_break viz)
    with publish_viz_no_summary[OF fail_break(2)] show ?thesis
      by (simp add: summary_append)
  next
    case (continue viz es')
    with publish_viz_no_summary[OF continue(2)] Cons.IH[OF continue(4)] show ?thesis
      by (simp add: summary_append)
  qed
qed

lemma run_sequences_no_summary:
  assumes "run_sequences opts e seqs g = Some (es, r)"
  shows "summary es = []"
  using assms
proof (induction seqs arbitrary: g es)
  case Nil
  then show ?case by simp
next
  case (Cons s later)
  have one: "summary es1 = []" if "run_sequence opts e (sequence_id s) g = Some (es1, r1)" for es1 r1
    using that
    by (cases rule: run_sequence_cases)
       (simp_all add: summary_append no_summary_outside frame_loop_no_summary)
  from Cons.prems show ?case
  proof (cases rule: run_sequences_Cons_cases)
    case (exited c)
    with one show ?thesis by blast
  next
    case (continue es1 g' es2)
    with one[OF continue(1)] Cons.IH[OF continue(2)] show ?thesis by (simp add: summary_append)
  qed
qed

text \<open>A run that ends with code 0 went through all the sequences and printed the summary.\<close>

lemma main_completed:
  assumes "select_sequences opts (get_sequences e) = Some seqs" and "main opts e = Some (es, 0)"
  obtains es0 g' where "run_sequences opts e seqs (initial_vars e) = Some (es0, Normal g')"
    and "es = launch_gui opts e @ es0 @ final_report g' @ join_gui opts e"
    and "summary es = final_report g'"
proof -
  from assms obtain es0 g' where run: "run_sequences opts e seqs (initial_vars e) = Some (es0, Normal g')"
    and es: "es = launch_gui opts e @ es0 @ final_report g' @ join_gui opts e"
    using run_sequences_exit_code[of opts e seqs "initial_vars e"]
    by (auto simp: main_def split: option.splits flow.splits prod.splits)
  have "summary (final_report g' :: ('a, 'c, 'd) event list) = final_report g'"
    by (simp add: final_report_def)
  then have "summary es = final_report g'"
    by (simp add: es summary_append no_summary_outside run_sequences_no_summary[OF run])
  with run es that show ?thesis by blast
qed

subsection \<open>The sums over the map of errors\<close>

lemma count_segments: "foldl (\<lambda>n x. dadd n (Fin 1)) (Fin a) xs = Fin (a + real (length xs))"
  by (induction xs arbitrary: a) (simp_all add: add.assoc)

lemma add_tab_errors_sums:
  "add_tab_errors (t, r, Fin a) xs =
     (foldl dadd t (map t_err xs), foldl dadd r (map r_err xs), Fin (a + real (length xs)))"
  unfolding add_tab_errors_def
  by (induction xs arbitrary: t r a) (simp_all add: add.assoc)

lemma add_tab_errors_append:
  "add_tab_errors acc (xs @ ys) = add_tab_errors (add_tab_errors acc xs) ys"
  by (simp add: add_tab_errors_def)

lemma all_seq_sums_concat:
  "foldl (\<lambda>acc pair. add_tab_errors acc (tab_errors (snd pair))) acc m =
     add_tab_errors acc (concat (map (\<lambda>pair. tab_errors (snd pair)) m))"
  by (induction m arbitrary: acc) (simp_all add: add_tab_errors_append add_tab_errors_def)

lemma all_seq_sums_segments:
  "all_seq_sums m =
     (let segs = concat (map snd (map (\<lambda>(k, se). (k, tab_errors se)) m))
      in (foldl dadd (Fin 0) (map t_err segs), foldl dadd (Fin 0) (map r_err segs),
          double_of_nat (length segs)))"
proof -
  have c: "concat (map (\<lambda>pair. tab_errors (snd pair)) m)
         = concat (map snd (map (\<lambda>(k, se). (k, tab_errors se)) m))"
    by (induction m) auto
  show ?thesis
    unfolding all_seq_sums_def all_seq_sums_concat c
    by (simp add: add_tab_errors_sums Let_def double_of_nat_def)
qed

lemma map_assign_fresh:
  "name x \<notin> name ` set xs \<Longrightarrow>
     map_assign (name x) (f x) (map (\<lambda>y. (name y, f y)) xs) = map (\<lambda>y. (name y, f y)) (insort_key name x xs)"
  by (induction xs) auto

lemma assign_all_fresh:
  assumes "distinct (map name ids)" and "name ` set ids \<inter> name ` set xs = {}"
  shows "foldl (\<lambda>m x. map_assign (name x) (f x) m) (map (\<lambda>y. (name y, f y)) xs) ids =
           map (\<lambda>y. (name y, f y)) (fold (insort_key name) ids xs)"
  using assms
proof (induction ids arbitrary: xs)
  case Nil
  then show ?case by simp
next
  case (Cons x ids)
  from Cons.prems have fresh: "name x \<notin> name ` set xs" by auto
  have "name ` set ids \<inter> name ` set (insort_key name x xs) = {}"
    using Cons.prems by (auto simp: set_insort_key)
  with Cons.IH[of "insort_key name x xs"] Cons.prems(1) show ?case
    by (simp add: map_assign_fresh[OF fresh])
qed

lemma assign_all_sorted:
  assumes "distinct (map name ids)"
  shows "foldl (\<lambda>m x. map_assign (name x) (f x) m) [] ids = map (\<lambda>y. (name y, f y)) (sort_key name ids)"
proof -
  have "inj_on name (set ids)" using assms by (simp add: distinct_map)
  then have "sort_key name ids = fold (insort_key name) ids []" by (rule sort_key_conv_fold)
  with assign_all_fresh[OF assms, of "[]" f] show ?thesis by simp
qed

lemma demo_env2_simps:
  "CT_ICP_WITH_VIZ demo_env2 = True"
  "get_sequences demo_env2 = [\<lparr>sequence_id = 1, info_sequence_name = ''01''\<rparr>,
                        \<lparr>sequence_id = 0, info_sequence_name = ''00''\<rparr>]"
  "get_dataset_sequence demo_env2 sid = (if sid = 0 then [1, 2, 0, 4] else [5, 6, 7])"
  "new_Odometry demo_env2 = []"
  "RegisterFrame demo_env2 od f = (\<lparr>success = (f \<noteq> 0), error_message = ''lost'', number_of_attempts = 2\<rparr>,
                                if f \<noteq> 0 then od @ [f] else od)"
  "Trajectory demo_env2 od = od"
  "steady_clock_now demo_env2 sid n j = (int n + 1) * 1000000 * int j"
  "pause_button_reads demo_env2 sid n = (if n = 1 then [True, True, False] else [False])"
  "transform_trajectory_frame demo_env2 sid t = t"
  "sequence_name demo_env2 sid = (if sid = 0 then ''00'' else ''01'')"
  "SavePosesKITTIFormat demo_env2 path ps = True"
  "SaveTrajectoryFrame demo_env2 path ts = True"
  "has_ground_truth demo_env2 sid = True"
  "load_ground_truth demo_env2 sid = [1, 2, 3, 4]"
  "eval demo_env2 = demo_eval"
  "default_pose demo_env2 = 0"
  by (simp_all add: demo_env2_def demo_env_def)

subsection \<open>The map of errors\<close>







subsection \<open>The frames and the calls of the gate in a run\<close>

lemma poll_pause_gate_wait:
  "poll_pause bs = (if list_all (\<lambda>b. b) bs then None else Some (gate_wait bs))"
  by (induction bs) (simp_all add: gate_wait_def)

lemma loop_event_gate_wait: "filter is_loop_event (gate_wait bs) = gate_wait bs"
  by (induction bs) (simp_all add: gate_wait_def)

lemma publish_viz_gate_wait:
  "publish_viz opts e sid n =
     (if control_surface opts e then
        (if endless_pause e sid n then None
         else Some ([SetCameraPose, AddModel (- 11)]
                    @ (if viz_mode opts = AGGREGATED then [AddModel (int (n mod 500))] else [])
                    @ gate_wait (pause_button_reads e sid n)))
      else Some [])"
  by (simp add: publish_viz_def control_surface_def poll_pause_gate_wait endless_pause_def)

lemma publish_viz_loop_events:
  "publish_viz opts e sid n = Some viz \<Longrightarrow>
     filter is_loop_event viz = (if control_surface opts e then gate_wait (pause_button_reads e sid n) else [])"
  by (auto simp: publish_viz_gate_wait loop_event_gate_wait split: if_splits)

lemma publish_viz_None:
  "publish_viz opts e sid n = None \<longleftrightarrow> control_surface opts e \<and> endless_pause e sid n"
  by (simp add: publish_viz_gate_wait)

lemma join_gui_no_loop_event: "filter is_loop_event (join_gui opts e) = []"
  by (simp add: join_gui_def)

lemma frame_loop_None:
  "frame_loop opts e sid fs v = None \<longleftrightarrow>
     control_surface opts e \<and>
     list_ex (endless_pause e sid)
       [frame_id v..<frame_id v + length (loop_frames opts e (frame_id v) (odometry v) fs)]"
proof (induction fs arbitrary: v)
  case Nil
  then show ?case by simp
next
  case (Cons f fs)
  let ?w = "count_frame (snd (register_vars e sid f v))"
  have od: "odometry ?w = snd (RegisterFrame e (odometry v) f)"
    and fid: "frame_id ?w = Suc (frame_id v)"
    by (simp_all add: count_frame_simps register_vars_simps)
  note IH = Cons.IH[of ?w, unfolded od fid]
  show ?case
  proof (cases "max_frames opts < 0 \<or> int (frame_id v) < max_frames opts")
    case False
    then show ?thesis by (simp add: frame_loop_Cons del: frame_loop.simps)
  next
    case cap: True
    show ?thesis
    proof (cases "publish_viz opts e sid (frame_id v)")
      case None
      then have "control_surface opts e \<and> endless_pause e sid (frame_id v)"
        by (simp add: publish_viz_None)
      with cap None show ?thesis
        by (simp add: frame_loop_Cons upt_conv_Cons del: frame_loop.simps upt_Suc)
    next
      case (Some viz)
      then have ne: "\<not> (control_surface opts e \<and> endless_pause e sid (frame_id v))"
        using publish_viz_None[of opts e sid "frame_id v"] by simp
      show ?thesis
      proof (cases "success (fst (RegisterFrame e (odometry v) f))")
        case True
        have "frame_loop opts e sid (f # fs) v = None \<longleftrightarrow> frame_loop opts e sid fs ?w = None"
          using cap Some True by (simp add: frame_loop_Cons del: frame_loop.simps split: option.splits)
        with cap True ne IH show ?thesis
          by (auto simp add: upt_conv_Cons simp del: frame_loop.simps upt_Suc)
      next
        case False
        with cap Some ne show ?thesis
          by (auto simp add: frame_loop_Cons upt_conv_Cons simp del: frame_loop.simps upt_Suc)
      qed
    qed
  qed
qed

lemma frame_loop_loop_events:
  assumes "frame_loop opts e sid fs v = Some (es, r)"
  shows "filter is_loop_event es =
           loop_events opts e sid (frame_id v) (loop_frames opts e (frame_id v) (odometry v) fs) \<and>
         ((\<exists>c. r = Exited c) \<longleftrightarrow>
            suspend_on_failure opts \<and> loop_fails opts e (frame_id v) (odometry v) fs)"
  using assms
proof (induction fs arbitrary: v es)
  case Nil
  then show ?case by auto
next
  case (Cons f fs)
  let ?w = "count_frame (snd (register_vars e sid f v))"
  have od: "odometry ?w = snd (RegisterFrame e (odometry v) f)"
    and fid: "frame_id ?w = Suc (frame_id v)"
    by (simp_all add: count_frame_simps register_vars_simps)
  from Cons.prems show ?case
  proof (cases rule: frame_loop_Cons_cases)
    case stop
    then show ?thesis by simp
  next
    case (fail_exit viz)
    with publish_viz_loop_events[OF fail_exit(2)] show ?thesis
      by (simp add: join_gui_no_loop_event)
  next
    case (fail_break viz)
    with publish_viz_loop_events[OF fail_break(2)] show ?thesis
      by simp
  next
    case (continue viz es')
    with publish_viz_loop_events[OF continue(2)] Cons.IH[OF continue(4), unfolded od fid] show ?thesis
      by simp
  qed
qed


lemma finish_sequence_no_loop_event:
  "filter is_loop_event (fst (finish_sequence opts e sid v)) = []"
  by (simp add: finish_sequence_def save_poses_def evaluate_def Let_def join_gui_def
        split: prod.splits flow.splits)

lemma outside_no_loop_event:
  "filter is_loop_event (announce_start opts) = []"
  "filter is_loop_event (final_report g) = []"
  "filter is_loop_event (launch_gui opts e) = []"
  by (simp_all add: announce_start_def final_report_def launch_gui_def)

lemma run_sequence_None:
  "run_sequence opts e sid g = None \<longleftrightarrow> meets_endless_pause opts e sid"
proof -
  have "run_sequence opts e sid g = None \<longleftrightarrow>
        frame_loop opts e sid (sequence_frames opts e sid) (begin_sequence e g) = None"
    by (simp add: run_sequence_def split: option.splits flow.splits prod.splits)
  then show ?thesis
    by (simp add: frame_loop_None begin_sequence_simps meets_endless_pause_def sequence_loop_frames_def)
qed

lemma run_sequence_loop_events:
  assumes "run_sequence opts e sid g = Some (es, r)"
  shows "filter is_loop_event es = sequence_loop_events opts e sid"
    and "(\<exists>c. r = Exited c) \<longleftrightarrow> sequence_exits opts e sid"
proof -
  have "filter is_loop_event es = sequence_loop_events opts e sid \<and>
        ((\<exists>c. r = Exited c) \<longleftrightarrow> sequence_exits opts e sid)"
    using assms
  proof (cases rule: run_sequence_cases)
    case (exited es0 c)
    from frame_loop_loop_events[OF exited(1)] exited(2,3) show ?thesis
      by (simp add: begin_sequence_simps outside_no_loop_event sequence_loop_events_def
            sequence_loop_frames_def sequence_exits_def)
  next
    case (finished es0 v)
    note ev = frame_loop_loop_events[OF finished(1), unfolded begin_sequence_simps]
    note keep = frame_loop_keeps_globals[OF finished(1), unfolded begin_sequence_simps]
    define saves where "saves = save_poses opts e (sequence_name e sid) (Trajectory e (odometry v))
        (transform_trajectory_frame e sid (Trajectory e (odometry v)))"
    have flow: "(\<exists>c. r = Exited c) \<longleftrightarrow> snd saves = Exited 1"
      using save_poses_flow[of opts e "sequence_name e sid" "Trajectory e (odometry v)"
              "transform_trajectory_frame e sid (Trajectory e (odometry v))"]
      by (auto simp: finished(3) finish_sequence_flow saves_def split: flow.splits)
    have susp: "snd saves = Exited 1 \<Longrightarrow> suspend_on_failure opts"
      using save_poses_flow[of opts e "sequence_name e sid" "Trajectory e (odometry v)"
              "transform_trajectory_frame e sid (Trajectory e (odometry v))"]
      by (auto simp: saves_def)
    have nofail: "\<not> (suspend_on_failure opts \<and>
        loop_fails opts e 0 (new_Odometry e) (sequence_frames opts e sid))"
      using ev by simp
    have "saves = save_poses opts e (sequence_name e sid)
              (Trajectory e (odometry_loop opts e 0 (new_Odometry e) (sequence_frames opts e sid)))
              (estimated_poses opts e sid)"
      using keep by (simp add: saves_def estimated_poses_def)
    with flow susp nofail have "(\<exists>c. r = Exited c) \<longleftrightarrow> sequence_exits opts e sid"
      unfolding sequence_exits_def by auto
    with ev finished(2) show ?thesis
      by (simp add: outside_no_loop_event finish_sequence_no_loop_event sequence_loop_events_def
            sequence_loop_frames_def)
  qed
  then show "filter is_loop_event es = sequence_loop_events opts e sid"
    and "(\<exists>c. r = Exited c) \<longleftrightarrow> sequence_exits opts e sid" by simp_all
qed

lemma run_sequences_None:
  "run_sequences opts e seqs g = None \<longleftrightarrow>
     list_ex (meets_endless_pause opts e) (performed opts e (map sequence_id seqs))"
proof (induction seqs arbitrary: g)
  case Nil
  then show ?case by simp
next
  case (Cons s later)
  show ?case
  proof (cases "run_sequence opts e (sequence_id s) g")
    case None
    then have "meets_endless_pause opts e (sequence_id s)" by (simp add: run_sequence_None)
    with None show ?thesis by simp
  next
    case (Some p)
    obtain es r where p: "p = (es, r)" by (cases p)
    from Some have nm: "\<not> meets_endless_pause opts e (sequence_id s)"
      using run_sequence_None[of opts e "sequence_id s" g] by simp
    note ex = run_sequence_loop_events(2)[OF Some[unfolded p]]
    show ?thesis
    proof (cases r)
      case (Exited c)
      with ex have "sequence_exits opts e (sequence_id s)" by simp
      with Some p Exited nm show ?thesis by simp
    next
      case (Normal g')
      with ex have ns: "\<not> sequence_exits opts e (sequence_id s)" by simp
      have "run_sequences opts e (s # later) g = None \<longleftrightarrow> run_sequences opts e later g' = None"
        using Some p Normal by (simp split: option.splits)
      with nm ns Cons.IH[of g'] show ?thesis by simp
    qed
  qed
qed

lemma run_sequences_loop_events:
  assumes "run_sequences opts e seqs g = Some (es, r)"
  shows "filter is_loop_event es =
           concat (map (sequence_loop_events opts e) (performed opts e (map sequence_id seqs)))"
  using assms
proof (induction seqs arbitrary: g es)
  case Nil
  then show ?case by simp
next
  case (Cons s later)
  from Cons.prems show ?case
  proof (cases rule: run_sequences_Cons_cases)
    case (exited c)
    from run_sequence_loop_events[OF exited(1)] show ?thesis by simp
  next
    case (continue es1 g' es2)
    from run_sequence_loop_events[OF continue(1)] Cons.IH[OF continue(2)] continue(3)
    show ?thesis by simp
  qed
qed

lemma main_None:
  assumes "select_sequences opts (get_sequences e) = Some seqs"
  shows "main opts e = None \<longleftrightarrow>
     list_ex (meets_endless_pause opts e) (performed opts e (map sequence_id seqs))"
proof -
  have "main opts e = None \<longleftrightarrow> run_sequences opts e seqs (initial_vars e) = None"
    using assms by (simp add: main_def split: option.splits flow.splits prod.splits)
  then show ?thesis by (simp add: run_sequences_None)
qed

lemma main_loop_events:
  assumes "select_sequences opts (get_sequences e) = Some seqs"
    and "main opts e = Some (es, c)"
  shows "filter is_loop_event es =
           concat (map (sequence_loop_events opts e) (performed opts e (map sequence_id seqs)))"
proof -
  from assms obtain es' r where run: "run_sequences opts e seqs (initial_vars e) = Some (es', r)"
    by (auto simp: main_def split: option.splits)
  from assms run run_sequences_loop_events[OF run] show ?thesis
    by (cases r) (auto simp: main_def outside_no_loop_event join_gui_no_loop_event)
qed

subsection \<open>The two other datasets\<close>

lemma demo_env_paused_simps:
  "CT_ICP_WITH_VIZ demo_env_paused = True"
  "get_sequences demo_env_paused = get_sequences demo_env"
  "get_dataset_sequence demo_env_paused = get_dataset_sequence demo_env"
  "new_Odometry demo_env_paused = []"
  "RegisterFrame demo_env_paused = RegisterFrame demo_env"
  "pause_button_reads demo_env_paused sid n = (if n = 1 then [True, True] else [False])"
  by (simp_all add: demo_env_paused_def demo_env_def)

lemma demo_env_same_name_simps:
  "CT_ICP_WITH_VIZ demo_env_same_name = True"
  "get_sequences demo_env_same_name = [\<lparr>sequence_id = 1, info_sequence_name = ''01''\<rparr>,
                        \<lparr>sequence_id = 0, info_sequence_name = ''00''\<rparr>]"
  "get_dataset_sequence demo_env_same_name sid = (if sid = 0 then [1, 2, 0, 4] else [5, 6, 7])"
  "new_Odometry demo_env_same_name = []"
  "RegisterFrame demo_env_same_name od f = (\<lparr>success = (f \<noteq> 0), error_message = ''lost'', number_of_attempts = 2\<rparr>,
                                if f \<noteq> 0 then od @ [f] else od)"
  "Trajectory demo_env_same_name od = od"
  "steady_clock_now demo_env_same_name sid n j = (int n + 1) * 1000000 * int j"
  "pause_button_reads demo_env_same_name sid n = (if n = 1 then [True, True, False] else [False])"
  "transform_trajectory_frame demo_env_same_name sid t = t"
  "sequence_name demo_env_same_name sid = ''00''"
  "SavePosesKITTIFormat demo_env_same_name path ps = True"
  "SaveTrajectoryFrame demo_env_same_name path ts = True"
  "has_ground_truth demo_env_same_name sid = True"
  "load_ground_truth demo_env_same_name sid = [1, 2, 3, 4]"
  "eval demo_env_same_name = demo_eval"
  "default_pose demo_env_same_name = 0"
  by (simp_all add: demo_env_same_name_def demo_env2_def demo_env_def)

section \<open>The claims\<close>












text \<open>
  C4. For a sequence with ground truth whose number of ground-truth poses differs from
  the number of estimated absolute poses, the ground truth is resized to the estimated
  length (to its first \<open>M\<close> poses when the estimate has \<open>M\<close> poses and the ground truth
  more), \<open>ct_icp::eval\<close> scores the resized ground truth against the estimate,
  \<open>valid_trajectory\<close> is false, and the result is printed, stored under the name of
  the sequence and handed to \<open>SaveMetrics\<close> with the flag false; the run goes on. The
  hypothesis on \<open>save_poses\<close> sets aside the exit on a failure to save the poses.
\<close>

theorem length_mismatch_is_truncated_and_flagged:
  fixes e :: "('f, 'o, 't, 'p) env" and opts sid and v :: "'o main_vars"
  defines "poses \<equiv> transform_trajectory_frame e sid (Trajectory e (odometry v))"
  defines "gt \<equiv> resize (length (transform_trajectory_frame e sid (Trajectory e (odometry v))))
                    (default_pose e) (load_ground_truth e sid)"
  assumes "has_ground_truth e sid"
    and "length (load_ground_truth e sid) \<noteq> length poses"
    and "snd (save_poses opts e (sequence_name e sid) (Trajectory e (odometry v)) poses) = Normal ()"
  shows "\<exists>post g1 se.
      finish_sequence opts e sid v = (post, Normal g1) \<and>
      length gt = length poses \<and>
      (length poses < length (load_ground_truth e sid) \<longrightarrow>
         gt = take (length poses) (load_ground_truth e sid)) \<and>
      se = (eval e gt poses)
             \<lparr>average_elapsed_ms := ddiv (registration_elapsed_ms v) (double_of_nat (frame_id v)),
              mean_num_attempts := ddiv (avg_number_of_attempts v) (double_of_nat (frame_id v))\<rparr> \<and>
      Results (sequence_name e sid) False se (mean_num_attempts se) (average_elapsed_ms se) \<in> set post \<and>
      saved_metrics post = [(map_assign (sequence_name e sid) se (sequence_name_to_errors v), False)] \<and>
      sequence_name_to_errors g1 = map_assign (sequence_name e sid) se (sequence_name_to_errors v) \<and>
      map_of (sequence_name_to_errors g1) (sequence_name e sid) = Some se"
proof -
  define se where "se = (eval e gt poses)
             \<lparr>average_elapsed_ms := ddiv (registration_elapsed_ms v) (double_of_nat (frame_id v)),
              mean_num_attempts := ddiv (avg_number_of_attempts v) (double_of_nat (frame_id v))\<rparr>"
  define saves where "saves = save_poses opts e (sequence_name e sid) (Trajectory e (odometry v)) poses"
  define ev where "ev = evaluate opts e sid (sequence_name e sid) poses (average_attempts v)"
  have ep: "evaluate_poses e sid poses = (False, eval e gt poses)"
    using assms(4) by (simp add: evaluate_poses_def Let_def gt_def poses_def)
  have ev: "ev = ([Results (sequence_name e sid) False se (mean_num_attempts se) (average_elapsed_ms se),
                   SaveMetricsCall (map_assign (sequence_name e sid) se (sequence_name_to_errors v))
                     (output_dir opts @ ''metrics.yaml'') False],
                  (average_attempts v)
                    \<lparr>dataset_with_gt := True, nb_seq_with_gt := nb_seq_with_gt v + 1,
                     average_rpe_on_seq := dadd (average_rpe_on_seq v) (mean_rpe se),
                     sequence_name_to_errors := map_assign (sequence_name e sid) se (sequence_name_to_errors v)\<rparr>)"
    using assms(3) by (simp add: ev_def evaluate_def ep Let_def se_def average_attempts_def)
  have fin: "finish_sequence opts e sid v = (fst saves @ fst ev, Normal (snd ev))"
    using assms(5) by (simp add: finish_sequence_flow flip: poses_def saves_def ev_def)
  have 1: "length gt = length poses" by (simp add: gt_def poses_def length_resize)
  have 2: "length poses < length (load_ground_truth e sid) \<longrightarrow>
         gt = take (length poses) (load_ground_truth e sid)"
    by (simp add: gt_def poses_def resize_shorter)
  have 3: "Results (sequence_name e sid) False se (mean_num_attempts se) (average_elapsed_ms se)
             \<in> set (fst saves @ fst ev)"
    by (simp add: ev)
  have 4: "saved_metrics (fst saves @ fst ev)
            = [(map_assign (sequence_name e sid) se (sequence_name_to_errors v), False)]"
    by (simp add: saved_metrics_append saves_def save_poses_quiet ev)
  have 5: "sequence_name_to_errors (snd ev)
            = map_assign (sequence_name e sid) se (sequence_name_to_errors v)"
    by (simp add: ev)
  have 6: "map_of (sequence_name_to_errors (snd ev)) (sequence_name e sid) = Some se"
    by (simp add: 5 map_of_map_assign)
  from fin 1 2 3 4 5 6 se_def show ?thesis by blast
qed

theorem length_mismatch_witness:
  "\<exists>post g1 se.
      finish_sequence default_SLAMOptions demo_env 0
         ((begin_sequence demo_env (initial_vars demo_env))
            \<lparr>odometry := [1, 2], avg_number_of_attempts := Fin 6, registration_elapsed_ms := Fin 6, frame_id := 2\<rparr>)
        = (post, Normal g1) \<and>
      se = (demo_eval [1, 2] [1, 2])\<lparr>average_elapsed_ms := Fin 3, mean_num_attempts := Fin 3\<rparr> \<and>
      length (tab_errors se) = 2 \<and>
      Results ''00'' False se (Fin 3) (Fin 3) \<in> set post \<and>
      saved_metrics post = [([(''00'', se)], False)] \<and>
      map_of (sequence_name_to_errors g1) ''00'' = Some se"
proof -
  let ?v = "(begin_sequence demo_env (initial_vars demo_env))
            \<lparr>odometry := [1, 2], avg_number_of_attempts := Fin 6, registration_elapsed_ms := Fin 6, frame_id := 2\<rparr>"
  have h1: "has_ground_truth demo_env 0" by (simp add: demo_env_simps)
  have h2: "length (load_ground_truth demo_env 0)
              \<noteq> length (transform_trajectory_frame demo_env 0 (Trajectory demo_env (odometry ?v)))"
    by (simp add: demo_env_simps)
  have h3: "snd (save_poses default_SLAMOptions demo_env (sequence_name demo_env 0)
                   (Trajectory demo_env (odometry ?v))
                   (transform_trajectory_frame demo_env 0 (Trajectory demo_env (odometry ?v)))) = Normal ()"
    by (simp add: save_poses_def demo_env_simps default_SLAMOptions_simps)
  show ?thesis
    using length_mismatch_is_truncated_and_flagged[OF h1 h2 h3]
    by (simp add: demo_env_simps resize_def double_of_nat_def initial_vars_def begin_sequence_def
          demo_eval_def) blast
qed

text \<open>
  C5, as the code has it. The metrics are computed from the map of errors, which holds
  one record for each name. In a run that ends with code 0 and has a sequence with
  ground truth, when the names of the sequences with ground truth differ from one
  another, let \<open>segs\<close> be the per-segment errors of all these sequences, taken sequence
  by sequence in the order of the names (the order of the map). The KITTI translation
  metric printed is the sum of the translation errors of \<open>segs\<close> divided by their number,
  times 100; the rotation metric is the sum of the rotation errors divided by their
  number, times 180 and divided by \<open>M_PI\<close>. Sequences without ground truth contribute
  no segment.
\<close>

theorem kitti_metric_is_segment_weighted:
  fixes e :: "('f, 'o, 't, 'p) env" and opts seqs es
  defines "segs \<equiv> concat (map (\<lambda>sid. tab_errors (sequence_errors opts e sid))
                              (sort_key (sequence_name e) (ground_truth_ids e seqs)))"
  assumes "select_sequences opts (get_sequences e) = Some seqs"
    and "main opts e = Some (es, 0)"
    and "ground_truth_ids e seqs \<noteq> []"
    and "distinct (map (sequence_name e) (ground_truth_ids e seqs))"
  shows "\<exists>x ms.
     summary es =
       [KittiMetric
          (dmul (ddiv (foldl dadd (Fin 0) (map t_err segs)) (double_of_nat (length segs))) (Fin 100))
          (ddiv (dmul (ddiv (foldl dadd (Fin 0) (map r_err segs)) (double_of_nat (length segs))) (Fin 180)) M_PI),
        AverageRPE x, AverageRegistrationTime ms]"
  using assms(2,3)
proof (cases rule: main_completed)
  case (1 es0 g')
  note acc = run_sequences_accumulates[OF 1(1)]
  have tabs: "map (\<lambda>(k, se). (k, tab_errors se)) (sequence_name_to_errors g') =
      map (\<lambda>sid. (sequence_name e sid, tab_errors (sequence_errors opts e sid)))
        (sort_key (sequence_name e) (ground_truth_ids e seqs))"
    using acc assign_all_sorted[OF assms(5), of "\<lambda>sid. tab_errors (sequence_errors opts e sid)"]
    by (simp add: initial_vars_def)
  have segs: "concat (map snd (map (\<lambda>(k, se). (k, tab_errors se)) (sequence_name_to_errors g'))) = segs"
    unfolding tabs segs_def by (simp add: comp_def)
  have sums: "all_seq_sums (sequence_name_to_errors g') =
      (foldl dadd (Fin 0) (map t_err segs), foldl dadd (Fin 0) (map r_err segs), double_of_nat (length segs))"
    unfolding all_seq_sums_segments segs by (simp add: Let_def)
  from acc assms(4) show ?thesis
    by (simp add: 1(3) final_report_def initial_vars_def kitti_translation_def kitti_rotation_def sums)
qed


theorem kitti_metric_witness:
  "ground_truth_ids demo_env2 (get_sequences demo_env2) = [1, 0] \<and>
   sort_key (sequence_name demo_env2) [1, 0] = [0, 1] \<and>
   length (tab_errors (sequence_errors (default_SLAMOptions\<lparr>with_viz3d := False\<rparr>) demo_env2 0)) = 2 \<and>
   length (tab_errors (sequence_errors (default_SLAMOptions\<lparr>with_viz3d := False\<rparr>) demo_env2 1)) = 3 \<and>
   (\<exists>es x ms.
      main (default_SLAMOptions\<lparr>with_viz3d := False\<rparr>) demo_env2 = Some (es, 0) \<and>
      summary es = [KittiMetric (Fin 1.8) (ddiv (Fin 0.756) M_PI), AverageRPE x, AverageRegistrationTime ms])"
proof -
  let ?opts = "default_SLAMOptions\<lparr>with_viz3d := False\<rparr>"
  have sel: "select_sequences ?opts (get_sequences demo_env2) = Some (get_sequences demo_env2)"
    by (simp add: select_sequences_def default_SLAMOptions_simps)
  have ids: "ground_truth_ids demo_env2 (get_sequences demo_env2) = [1, 0]"
    by (simp add: ground_truth_ids_def demo_env2_simps)
  have srt: "sort_key (sequence_name demo_env2) [1, 0] = [0, 1]"
    by (simp add: demo_env2_simps)
  have ne: "ground_truth_ids demo_env2 (get_sequences demo_env2) \<noteq> []" unfolding ids by simp
  have dist: "distinct (map (sequence_name demo_env2) (ground_truth_ids demo_env2 (get_sequences demo_env2)))"
    unfolding ids by (simp add: demo_env2_simps)
  have e0: "sequence_errors ?opts demo_env2 0 = demo_eval [1, 2] [1, 2]"
    and e1: "sequence_errors ?opts demo_env2 1 = demo_eval [1, 2, 3] [5, 6, 7]"
    by (simp_all add: sequence_errors_def evaluate_poses_def estimated_poses_def sequence_frames_def
          demo_env2_simps default_SLAMOptions_simps resize_def Let_def)
  obtain es where m: "main ?opts demo_env2 = Some (es, 0)"
    by (simp add: main_defs run_defs demo_env2_simps default_SLAMOptions_simps demo_eval_def)
  from kitti_metric_is_segment_weighted[OF sel m ne dist] ids srt m show ?thesis
    by (simp add: e0 e1 demo_eval_def double_of_nat_def)
qed

text \<open>
  C5, as it is stated, fails: the metrics are not computed over all the sequences with
  ground truth when two of them have the same name. With both sequences of the second
  dataset named \<open>00\<close>, the record of sequence \<open>1\<close> (three segments) is overwritten by
  that of sequence \<open>0\<close> (two segments). Over the five segments the translation metric
  would be \<open>9/5\<close> and the rotation metric \<open>(189/250) / M_PI\<close>; the run prints \<open>3/2\<close> and
  \<open>(27/100) / M_PI\<close>, the metrics of the two segments of sequence \<open>0\<close>.
\<close>

theorem same_name_overwrites_segments:
  "map (sequence_name demo_env_same_name)
       (ground_truth_ids demo_env_same_name (get_sequences demo_env_same_name)) = [''00'', ''00''] \<and>
   length (all_segments (default_SLAMOptions\<lparr>with_viz3d := False\<rparr>) demo_env_same_name
             (get_sequences demo_env_same_name)) = 5 \<and>
   spec_kitti_translation (default_SLAMOptions\<lparr>with_viz3d := False\<rparr>) demo_env_same_name
      (get_sequences demo_env_same_name) = Fin (9 / 5) \<and>
   spec_kitti_rotation (default_SLAMOptions\<lparr>with_viz3d := False\<rparr>) demo_env_same_name
      (get_sequences demo_env_same_name) = ddiv (Fin (189 / 250)) M_PI \<and>
   map_option summary
     (map_option fst (main (default_SLAMOptions\<lparr>with_viz3d := False\<rparr>) demo_env_same_name))
     = Some [KittiMetric (Fin (3 / 2)) (ddiv (Fin (27 / 100)) M_PI),
             AverageRPE (Fin (1 / 50)), AverageRegistrationTime (Fin (12 / 5))]"
proof -
  let ?opts = "default_SLAMOptions\<lparr>with_viz3d := False\<rparr>"
  have e0: "sequence_errors ?opts demo_env_same_name 0 = demo_eval [1, 2] [1, 2]"
    and e1: "sequence_errors ?opts demo_env_same_name 1 = demo_eval [1, 2, 3] [5, 6, 7]"
    by (simp_all add: sequence_errors_def evaluate_poses_def estimated_poses_def sequence_frames_def
          demo_env_same_name_simps default_SLAMOptions_simps resize_def Let_def)
  have ids: "ground_truth_ids demo_env_same_name (get_sequences demo_env_same_name) = [1, 0]"
    by (simp add: ground_truth_ids_def demo_env_same_name_simps)
  have segs: "all_segments ?opts demo_env_same_name (get_sequences demo_env_same_name) =
      tab_errors (demo_eval [1, 2, 3] [5, 6, 7]) @ tab_errors (demo_eval [1, 2] [1, 2])"
    by (simp add: all_segments_def ids e0 e1)
  have 1: "map (sequence_name demo_env_same_name)
       (ground_truth_ids demo_env_same_name (get_sequences demo_env_same_name)) = [''00'', ''00'']"
    unfolding ids by (simp add: demo_env_same_name_simps)
  have 2: "length (all_segments ?opts demo_env_same_name (get_sequences demo_env_same_name)) = 5"
    by (simp add: segs demo_eval_def)
  have 3: "spec_kitti_translation ?opts demo_env_same_name (get_sequences demo_env_same_name) = Fin (9 / 5)"
    by (simp add: spec_kitti_translation_def segs demo_eval_def double_of_nat_def)
  have 4: "spec_kitti_rotation ?opts demo_env_same_name (get_sequences demo_env_same_name)
             = ddiv (Fin (189 / 250)) M_PI"
    by (simp add: spec_kitti_rotation_def segs demo_eval_def double_of_nat_def)
  have 5: "map_option summary (map_option fst (main ?opts demo_env_same_name))
     = Some [KittiMetric (Fin (3 / 2)) (ddiv (Fin (27 / 100)) M_PI),
             AverageRPE (Fin (1 / 50)), AverageRegistrationTime (Fin (12 / 5))]"
    by (simp add: main_defs run_defs demo_env_same_name_simps default_SLAMOptions_simps demo_eval_def)
  from 1 2 3 4 5 show ?thesis by blast
qed

text \<open>
  C6. In a run that ends with code 0 and has a sequence with ground truth, the average
  RPE printed after the last sequence is the sum of the mean RPE of each sequence with
  ground truth, in the order they were processed, divided by the number of these
  sequences: the mean of the means, with no weight for the number of segments, and
  sequences without ground truth count for nothing. The small dataset is the scenario of
  the claim: one sequence with ground truth and mean RPE 0.02, one without, average 0.02.
\<close>

theorem average_rpe_is_mean_of_sequence_means:
  assumes "select_sequences opts (get_sequences e) = Some seqs"
    and "main opts e = Some (es, 0)"
    and "ground_truth_ids e seqs \<noteq> []"
  shows "\<exists>t r ms.
     summary es = [KittiMetric t r,
                   AverageRPE
                     (ddiv (foldl dadd (Fin 0)
                              (map (\<lambda>sid. mean_rpe (sequence_errors opts e sid)) (ground_truth_ids e seqs)))
                           (double_of_nat (length (ground_truth_ids e seqs)))),
                   AverageRegistrationTime ms]"
  using assms(1,2)
proof (cases rule: main_completed)
  case (1 es0 g')
  note acc = run_sequences_accumulates[OF 1(1)]
  from acc assms(3) show ?thesis
    by (simp add: 1(3) final_report_def initial_vars_def)
qed


theorem average_rpe_witness:
  "ground_truth_ids demo_env (get_sequences demo_env) = [0] \<and>
   mean_rpe (sequence_errors (default_SLAMOptions\<lparr>with_viz3d := False\<rparr>) demo_env 0) = Fin 0.02 \<and>
   (\<exists>es t r ms.
      main (default_SLAMOptions\<lparr>with_viz3d := False\<rparr>) demo_env = Some (es, 0) \<and>
      summary es = [KittiMetric t r, AverageRPE (Fin 0.02), AverageRegistrationTime ms])"
proof -
  let ?opts = "default_SLAMOptions\<lparr>with_viz3d := False\<rparr>"
  have sel: "select_sequences ?opts (get_sequences demo_env) = Some (get_sequences demo_env)"
    by (simp add: select_sequences_def default_SLAMOptions_simps)
  have ids: "ground_truth_ids demo_env (get_sequences demo_env) = [0]"
    by (simp add: ground_truth_ids_def demo_env_simps)
  have rpe: "mean_rpe (sequence_errors ?opts demo_env 0) = Fin 0.02"
    by (simp add: sequence_errors_def evaluate_poses_def demo_env_simps demo_eval_def Let_def)
  obtain es where m: "main ?opts demo_env = Some (es, 0)"
    by (simp add: main_defs run_defs demo_env_simps default_SLAMOptions_simps demo_eval_def)
  have ne: "ground_truth_ids demo_env (get_sequences demo_env) \<noteq> []" by (simp add: ids)
  from average_rpe_is_mean_of_sequence_means[OF sel m ne] ids rpe m show ?thesis
    by (simp add: double_of_nat_def)
qed

text \<open>
  C7. Let \<open>seqs\<close> be the sequences selected; the run gets to the sequences
  \<open>performed opts e (map sequence_id seqs)\<close>.

  A run does not return exactly when there is a control surface and one of the
  iterations it gets to finds the pause button set at every call of \<open>ContinueSLAM\<close>:
  the loop then polls for ever and takes no further frame.

  In a run that returns, the frames and the gate appear as follows, sequence by sequence
  and frame by frame. The frame is taken from the iterator and handed to the engine.
  Then, with a control surface, \<open>ContinueSLAM\<close> is called once for each value the
  button has in this iteration, up to the first value that is not set: every call that
  finds the button set returns false and is followed by a sleep of 10 ms, and the call
  that finds it unset returns true. Only then is the next frame taken. Without a control
  surface \<open>ContinueSLAM\<close> is never called and nothing sleeps. Besides, the events
  follow the protocol of the gate: between a registration and the first call only the
  visualisation is updated, and after a call that returned false nothing happens but the
  sleep and the next call.

  A run returns when there is no control surface or every pause is lifted.
\<close>

theorem pause_gate_blocks_next_frame:
  assumes "select_sequences opts (get_sequences e) = Some seqs"
  shows
  "(main opts e = None \<longleftrightarrow>
      list_ex (meets_endless_pause opts e) (performed opts e (map sequence_id seqs))) \<and>
   (\<forall>es c. main opts e = Some (es, c) \<longrightarrow>
      filter is_loop_event es =
        concat (map (sequence_loop_events opts e) (performed opts e (map sequence_id seqs))) \<and>
      (if control_surface opts e then gate_protocol Running es = Some Running
       else filter is_gate_event es = [])) \<and>
   (\<not> control_surface opts e \<or> pauses_end e \<longrightarrow> (\<exists>es c. main opts e = Some (es, c)))"
proof (intro conjI allI impI)
  show "main opts e = None \<longleftrightarrow>
      list_ex (meets_endless_pause opts e) (performed opts e (map sequence_id seqs))"
    by (rule main_None[OF assms])
next
  fix es c assume m: "main opts e = Some (es, c)"
  show "filter is_loop_event es =
        concat (map (sequence_loop_events opts e) (performed opts e (map sequence_id seqs)))"
    by (rule main_loop_events[OF assms m])
  from m assms obtain es' r where run: "run_sequences opts e seqs (initial_vars e) = Some (es', r)"
    by (auto simp: main_def split: option.splits)
  note p = run_sequences_protocol[OF run]
  show "if control_surface opts e then gate_protocol Running es = Some Running
        else filter is_gate_event es = []"
  proof (cases "control_surface opts e")
    case True
    with m assms run p(1) show ?thesis
      by (cases r) (auto simp: main_def gate_protocol_append final_report_neutral join_gui_neutral
            control_surface_def)
  next
    case False
    with m assms run p(2) show ?thesis
      by (cases r) (auto simp: main_def final_report_neutral join_gui_neutral control_surface_def)
  qed
next
  assume "\<not> control_surface opts e \<or> pauses_end e"
  then have "control_surface opts e \<longrightarrow> pauses_end e" by blast
  then show "\<exists>es c. main opts e = Some (es, c)" by (rule main_Some)
qed


theorem pause_gate_witness:
  "select_sequences default_SLAMOptions (get_sequences demo_env) = Some (get_sequences demo_env) \<and>
   control_surface default_SLAMOptions demo_env \<and>
   pause_button_reads demo_env 0 1 = [True, True, False] \<and>
   map_option (filter is_loop_event) (map_option fst (main default_SLAMOptions demo_env)) =
     Some [NextUnfilteredFrame 1, RegisterFrameCall 1, ContinueSLAMRead True,
           NextUnfilteredFrame 2, RegisterFrameCall 2,
           ContinueSLAMRead False, SleepFor10ms, ContinueSLAMRead False, SleepFor10ms,
           ContinueSLAMRead True,
           NextUnfilteredFrame 0, RegisterFrameCall 0, ContinueSLAMRead True,
           NextUnfilteredFrame 5, RegisterFrameCall 5, ContinueSLAMRead True,
           NextUnfilteredFrame 6, RegisterFrameCall 6,
           ContinueSLAMRead False, SleepFor10ms, ContinueSLAMRead False, SleepFor10ms,
           ContinueSLAMRead True] \<and>
   pause_button_reads demo_env_paused 0 1 = [True, True] \<and>
   main default_SLAMOptions demo_env_paused = None \<and>
   \<not> control_surface (default_SLAMOptions\<lparr>with_viz3d := False\<rparr>) demo_env_paused \<and>
   map_option (filter is_gate_event)
     (map_option fst (main (default_SLAMOptions\<lparr>with_viz3d := False\<rparr>) demo_env_paused)) = Some []"
proof -
  let ?off = "default_SLAMOptions\<lparr>with_viz3d := False\<rparr>"
  have sel: "select_sequences default_SLAMOptions (get_sequences demo_env) = Some (get_sequences demo_env)"
    and selp: "select_sequences default_SLAMOptions (get_sequences demo_env_paused) = Some (get_sequences demo_env)"
    and selo: "select_sequences ?off (get_sequences demo_env_paused) = Some (get_sequences demo_env)"
    by (simp_all add: select_sequences_def default_SLAMOptions_simps demo_env_paused_simps)
  have c: "control_surface default_SLAMOptions demo_env"
    and cp: "control_surface default_SLAMOptions demo_env_paused"
    and n: "\<not> control_surface ?off demo_env_paused"
    by (simp_all add: control_surface_def demo_env_simps demo_env_paused_simps default_SLAMOptions_simps)
  have ids: "map sequence_id (get_sequences demo_env) = [0, 1]"
    by (simp add: demo_env_simps)
  have perf: "performed default_SLAMOptions demo_env [0, 1] = [0, 1]"
    by (simp add: sequence_exits_def default_SLAMOptions_simps)
  have fr: "sequence_loop_frames default_SLAMOptions demo_env 0 = [1, 2, 0]"
        "sequence_loop_frames default_SLAMOptions demo_env 1 = [5, 6]"
        "sequence_loop_frames default_SLAMOptions demo_env_paused 0 = [1, 2, 0]"
    by (simp_all add: sequence_loop_frames_def sequence_frames_def demo_env_simps
          demo_env_paused_simps default_SLAMOptions_simps)
  have up: "[0..<3] = [0, Suc 0, 2]"
    by (simp add: numeral_3_eq_3 numeral_2_eq_2 upt_rec)
  have stuck: "list_ex (meets_endless_pause default_SLAMOptions demo_env_paused)
                 (performed default_SLAMOptions demo_env_paused [0, 1])"
    by (simp add: meets_endless_pause_def cp fr up endless_pause_def demo_env_paused_simps)
  from pause_gate_blocks_next_frame[OF selp] stuck
  have 1: "main default_SLAMOptions demo_env_paused = None"
    by (simp add: ids)
  obtain es where m: "main default_SLAMOptions demo_env = Some (es, 0)"
    by (simp add: main_defs run_defs demo_env_simps default_SLAMOptions_simps demo_eval_def)
  from pause_gate_blocks_next_frame[OF sel, unfolded ids perf] m
  have "filter is_loop_event es =
        concat (map (sequence_loop_events default_SLAMOptions demo_env) [0, 1])"
    by blast
  then have 2: "filter is_loop_event es =
     [NextUnfilteredFrame 1, RegisterFrameCall 1, ContinueSLAMRead True,
           NextUnfilteredFrame 2, RegisterFrameCall 2,
           ContinueSLAMRead False, SleepFor10ms, ContinueSLAMRead False, SleepFor10ms,
           ContinueSLAMRead True,
           NextUnfilteredFrame 0, RegisterFrameCall 0, ContinueSLAMRead True,
           NextUnfilteredFrame 5, RegisterFrameCall 5, ContinueSLAMRead True,
           NextUnfilteredFrame 6, RegisterFrameCall 6,
           ContinueSLAMRead False, SleepFor10ms, ContinueSLAMRead False, SleepFor10ms,
           ContinueSLAMRead True]"
    by (simp add: sequence_loop_events_def fr c gate_wait_def demo_env_simps)
  from pause_gate_blocks_next_frame[OF selo] n
  obtain es' c' where m': "main ?off demo_env_paused = Some (es', c')"
    and 3: "filter is_gate_event es' = []"
    by (metis (no_types, lifting))
  have r: "pause_button_reads demo_env 0 1 = [True, True, False]"
    "pause_button_reads demo_env_paused 0 1 = [True, True]"
    by (simp_all add: demo_env_simps demo_env_paused_simps)
  from sel c r 1 n 2 3 show ?thesis
    by (simp add: m m')
qed







text \<open>
  C10. When the frame loop of a sequence is left because the registration of the frame
  with index \<open>k\<close> failed (the \<open>k\<close> frames before it were registered with success), the
  attempts and the registration time of the failed frame are already in the totals of the
  sequence and of the run, while \<open>frame_id\<close> and \<open>all_seq_num_frames\<close> count the \<open>k\<close>
  successful frames only. So the reported \<open>mean_num_attempts\<close> and
  \<open>average_elapsed_ms\<close> are the totals over \<open>k + 1\<close> registrations divided by \<open>k\<close>.
\<close>

theorem failed_frame_counted_in_totals_not_in_divisor:
  fixes e :: "('f, 'o, 't, 'p) env" and opts sid k and g :: "'o main_vars"
  defines "ss \<equiv> summaries e (new_Odometry e) (sequence_frames opts e sid)"
  assumes "k < length (sequence_frames opts e sid)"
    and "list_all success (take k ss)" and "\<not> success (ss ! k)"
    and "below_cap opts k"
    and "control_surface opts e \<longrightarrow> pauses_end e"
    and "\<not> suspend_on_failure opts"
    and "has_ground_truth e sid"
  shows "\<exists>es g' se valid.
     run_sequence opts e sid g = Some (es, Normal g') \<and>
     reported es = [(sid, k, error_message (ss ! k))] \<and>
     length (registered es) = Suc k \<and>
     frame_id g' = k \<and>
     all_seq_num_frames g' = all_seq_num_frames g + k \<and>
     all_seq_registration_elapsed_ms g' =
       foldl dadd (all_seq_registration_elapsed_ms g) (map (frame_ms e sid) [0..<Suc k]) \<and>
     Results (sequence_name e sid) valid se (mean_num_attempts se) (average_elapsed_ms se) \<in> set es \<and>
     map_of (sequence_name_to_errors g') (sequence_name e sid) = Some se \<and>
     mean_num_attempts se =
       ddiv (foldl dadd (Fin 0) (map (\<lambda>s. double_of_int (number_of_attempts s)) (take (Suc k) ss)))
            (double_of_nat k) \<and>
     average_elapsed_ms se =
       ddiv (foldl dadd (Fin 0) (map (frame_ms e sid) [0..<Suc k])) (double_of_nat k)"
proof -
  let ?fs = "sequence_frames opts e sid"
  let ?b = "begin_sequence e g"
  let ?w = "snd (register_vars e sid (?fs ! k) (vars_after e sid ?b (take k ?fs)))"
  have len: "k \<le> length ss" using assms(2) by (simp add: ss_def length_summaries)
  have ok: "\<forall>i<k. success (summaries e (odometry ?b) ?fs ! i)"
    using assms(3) len by (simp add: list_all_take_nth begin_sequence_simps ss_def)
  have bad: "\<not> success (summaries e (odometry ?b) ?fs ! k)"
    using assms(4) by (simp add: begin_sequence_simps ss_def)
  have cap: "below_cap opts (frame_id ?b + k)"
    using assms(5) by (simp add: begin_sequence_simps)
  obtain es0 where loop: "frame_loop opts e sid ?fs ?b =
      Some (es0 @ [SlamError sid k (error_message (ss ! k))], Normal ?w)"
    and tr: "registered es0 = take (Suc k) ?fs" "reported es0 = []"
    using frame_loop_failure[OF assms(2) ok bad cap assms(6), of sid] assms(7)
    by (auto simp: begin_sequence_simps ss_def)
  note vf = failed_vars_fields[OF assms(2), of e sid ?b]
  define name where "name = sequence_name e sid"
  define poses where "poses = transform_trajectory_frame e sid (Trajectory e (odometry ?w))"
  define se where "se = (snd (evaluate_poses e sid poses))
                \<lparr>average_elapsed_ms := ddiv (registration_elapsed_ms ?w) (double_of_nat (frame_id ?w)),
                 mean_num_attempts := ddiv (avg_number_of_attempts ?w) (double_of_nat (frame_id ?w))\<rparr>"
  define saves where "saves = fst (save_poses opts e name (Trajectory e (odometry ?w)) poses)"
  define g' where "g' = ?w\<lparr>avg_number_of_attempts := ddiv (avg_number_of_attempts ?w) (double_of_nat (frame_id ?w)),
                dataset_with_gt := True,
                nb_seq_with_gt := nb_seq_with_gt ?w + 1,
                average_rpe_on_seq := dadd (average_rpe_on_seq ?w) (mean_rpe se),
                sequence_name_to_errors := map_assign name se (sequence_name_to_errors ?w)\<rparr>"
  define es where "es = announce_start opts
       @ (es0 @ [SlamError sid k (error_message (ss ! k))])
       @ saves @ [Results name (fst (evaluate_poses e sid poses)) se (mean_num_attempts se) (average_elapsed_ms se),
           SaveMetricsCall (map_assign name se (sequence_name_to_errors ?w))
              (output_dir opts @ ''metrics.yaml'') (fst (evaluate_poses e sid poses))]"
  have fin: "finish_sequence opts e sid ?w =
      (saves @ [Results name (fst (evaluate_poses e sid poses)) se (mean_num_attempts se) (average_elapsed_ms se),
           SaveMetricsCall (map_assign name se (sequence_name_to_errors ?w))
              (output_dir opts @ ''metrics.yaml'') (fst (evaluate_poses e sid poses))], Normal g')"
    using finish_sequence_evaluated[OF assms(7) assms(8), where v = ?w]
    by (simp add: name_def poses_def se_def saves_def g'_def)
  have run: "run_sequence opts e sid g = Some (es, Normal g')"
    by (simp add: run_sequence_def loop fin es_def)
  have 1: "reported es = [(sid, k, error_message (ss ! k))]"
    and 2: "length (registered es) = Suc k"
    using tr assms(2)
    by (simp_all add: es_def reported_append registered_append saves_def save_poses_quiet
          announce_start_quiet)
  have 3: "frame_id g' = k" "all_seq_num_frames g' = all_seq_num_frames g + k"
     "all_seq_registration_elapsed_ms g' =
       foldl dadd (all_seq_registration_elapsed_ms g) (map (frame_ms e sid) [0..<Suc k])"
    by (simp_all add: g'_def vf begin_sequence_simps)
  have 4: "Results (sequence_name e sid) (fst (evaluate_poses e sid poses)) se (mean_num_attempts se) (average_elapsed_ms se) \<in> set es"
    by (simp add: es_def name_def)
  have 5: "map_of (sequence_name_to_errors g') (sequence_name e sid) = Some se"
    by (simp add: g'_def name_def map_of_map_assign)
  have 6: "mean_num_attempts se =
       ddiv (foldl dadd (Fin 0) (map (\<lambda>s. double_of_int (number_of_attempts s)) (take (Suc k) ss)))
            (double_of_nat k)"
     "average_elapsed_ms se =
       ddiv (foldl dadd (Fin 0) (map (frame_ms e sid) [0..<Suc k])) (double_of_nat k)"
    by (simp_all add: se_def vf begin_sequence_simps ss_def)
  from run 1 2 3 4 5 6 show ?thesis by blast
qed


theorem failed_frame_counted_witness:
  "\<exists>es g' se valid.
     run_sequence default_SLAMOptions demo_env 0 (initial_vars demo_env) = Some (es, Normal g') \<and>
     reported es = [(0, 2, ''lost'')] \<and> length (registered es) = 3 \<and> frame_id g' = 2 \<and>
     all_seq_num_frames g' = 2 \<and> all_seq_registration_elapsed_ms g' = Fin 6 \<and>
     Results ''00'' valid se (mean_num_attempts se) (average_elapsed_ms se) \<in> set es \<and>
     map_of (sequence_name_to_errors g') ''00'' = Some se \<and>
     mean_num_attempts se = Fin 3 \<and> average_elapsed_ms se = Fin 3"
proof -
  have fs: "sequence_frames default_SLAMOptions demo_env 0 = [1, 2, 0, 4]"
    by (simp add: sequence_frames_def demo_env_simps default_SLAMOptions_simps)
  have ss: "summaries demo_env (new_Odometry demo_env) [1, 2, 0, 4] =
      [\<lparr>success = True, error_message = ''lost'', number_of_attempts = 2\<rparr>,
       \<lparr>success = True, error_message = ''lost'', number_of_attempts = 2\<rparr>,
       \<lparr>success = False, error_message = ''lost'', number_of_attempts = 2\<rparr>,
       \<lparr>success = True, error_message = ''lost'', number_of_attempts = 2\<rparr>]"
    by (simp add: demo_env_simps)
  have h1: "2 < length (sequence_frames default_SLAMOptions demo_env 0)" by (simp add: fs)
  have h2: "list_all success (take 2 (summaries demo_env (new_Odometry demo_env)
              (sequence_frames default_SLAMOptions demo_env 0)))"
    by (simp add: fs demo_env_simps)
  have h3: "\<not> success (summaries demo_env (new_Odometry demo_env)
              (sequence_frames default_SLAMOptions demo_env 0) ! 2)"
    by (simp add: fs demo_env_simps)
  have h4: "below_cap default_SLAMOptions 2" by (simp add: below_cap_def default_SLAMOptions_simps)
  have h5: "control_surface default_SLAMOptions demo_env \<longrightarrow> pauses_end demo_env"
    by (simp add: demo_pauses_end)
  have h6: "\<not> suspend_on_failure default_SLAMOptions" by (simp add: default_SLAMOptions_simps)
  have h7: "has_ground_truth demo_env 0" by (simp add: demo_env_simps)
  have up: "[0..<3] = [0, Suc 0, 2]" by (simp add: numeral_3_eq_3 numeral_2_eq_2 upt_rec)
  show ?thesis
    using failed_frame_counted_in_totals_not_in_divisor[OF h1 h2 h3 h4 h5 h6 h7, of "initial_vars demo_env"]
    by (simp add: fs up demo_frame_ms demo_env_simps initial_vars_def double_of_int_def double_of_nat_def
          flip: numeral_2_eq_2)
qed

end
